theory Spec2Isabelle
  imports Main "HOL-Library.Product_Lexorder" "HOL-Library.Multiset"
begin

section \<open>Python values the program handles\<close>

text \<open>
  The appointment manager of \<^verbatim>\<open>src/app.py\<close> is embedded function by function.
  Every exception the Python code can raise is a value: a function that can raise
  returns \<open>py_exc + 'a\<close>, with \<open>Inl\<close> for the exception.

  Python strings are modelled by HOL strings, a character standing for the code point
  of the same number (below 256). Python integers are unbounded and are \<open>int\<close>.
\<close>

datatype py_exc =
  KeyError | TypeError | ValueError | AttributeError | OverflowError | IndexError
  | OSError | JSONDecodeError | UnicodeError

subsection \<open>\<^verbatim>\<open>str.strip()\<close>\<close>

text \<open>
  The code points below 256 that Python's \<^verbatim>\<open>str.isspace\<close> accepts: TAB, LF, VT, FF, CR,
  the four separators FS, GS, RS, US, the space, NEL (0x85) and the no-break space (0xA0).
\<close>

definition is_space :: "char \<Rightarrow> bool" where
  "is_space c \<longleftrightarrow> (of_char c :: nat) \<in> {9, 10, 11, 12, 13, 28, 29, 30, 31, 32, 133, 160}"

definition lstrip :: "string \<Rightarrow> string" where
  "lstrip s = dropWhile is_space s"

definition rstrip :: "string \<Rightarrow> string" where
  "rstrip s = rev (dropWhile is_space (rev s))"

definition strip :: "string \<Rightarrow> string" where
  "strip s = rstrip (lstrip s)"

subsection \<open>\<^verbatim>\<open>str.split(":")\<close>\<close>

fun split_on :: "char \<Rightarrow> string \<Rightarrow> string list" where
  "split_on sep [] = [[]]"
| "split_on sep (c # cs) =
     (if c = sep then [] # split_on sep cs
      else (case split_on sep cs of
              [] \<Rightarrow> [[c]]
            | p # ps \<Rightarrow> (c # p) # ps))"

subsection \<open>Decimal digits and \<^verbatim>\<open>int(str)\<close>\<close>

definition is_digit :: "char \<Rightarrow> bool" where
  "is_digit c \<longleftrightarrow> 48 \<le> (of_char c :: nat) \<and> (of_char c :: nat) \<le> 57"

definition digit_val :: "char \<Rightarrow> nat" where
  "digit_val c = of_char c - 48"

definition digit_char :: "nat \<Rightarrow> char" where
  "digit_char d = ''0123456789'' ! d"

text \<open>
  The digits of \<^verbatim>\<open>int(s)\<close> in base 10 after the sign: a non-empty run of decimal digits
  in which single underscores may stand between two digits. The flag says whether the
  previous character was a digit.
\<close>

fun int_digits :: "string \<Rightarrow> nat \<Rightarrow> bool \<Rightarrow> nat option" where
  "int_digits [] acc prev = (if prev then Some acc else None)"
| "int_digits (c # cs) acc prev =
     (if is_digit c then int_digits cs (acc * 10 + digit_val c) True
      else if c = CHR ''_'' \<and> prev then int_digits cs acc False
      else None)"

text \<open>
  The whitespace \<^verbatim>\<open>int(s)\<close> skips around the number is not that of \<^verbatim>\<open>str.strip\<close>: of the
  ASCII characters only TAB, LF, VT, FF, CR and the space (C's \<^verbatim>\<open>isspace\<close>), and the spaces
  beyond ASCII, which below 256 are NEL and the no-break space. The separators FS, GS,
  RS and US are not skipped: \<^verbatim>\<open>int("\x1c30")\<close> raises.
\<close>

definition is_int_space :: "char \<Rightarrow> bool" where
  "is_int_space c \<longleftrightarrow> (of_char c :: nat) \<in> {9, 10, 11, 12, 13, 32, 133, 160}"

definition int_strip :: "string \<Rightarrow> string" where
  "int_strip s = rev (dropWhile is_int_space (rev (dropWhile is_int_space s)))"

text \<open>
  \<^verbatim>\<open>int(s)\<close> for a string: that whitespace is dropped at both ends, one sign is allowed,
  anything else raises \<^verbatim>\<open>ValueError\<close>. (CPython's limit on the number of digits of a
  decimal string, 4300 by default since 3.11, is not modelled.)
\<close>

definition int_of_str :: "string \<Rightarrow> py_exc + int" where
  "int_of_str s =
     (case int_strip s of
        [] \<Rightarrow> Inl ValueError
      | c # cs \<Rightarrow>
          if c = CHR ''-'' then
            (case int_digits cs 0 False of None \<Rightarrow> Inl ValueError | Some n \<Rightarrow> Inr (- int n))
          else if c = CHR ''+'' then
            (case int_digits cs 0 False of None \<Rightarrow> Inl ValueError | Some n \<Rightarrow> Inr (int n))
          else
            (case int_digits (c # cs) 0 False of None \<Rightarrow> Inl ValueError | Some n \<Rightarrow> Inr (int n)))"

section \<open>Dates and times (\<^verbatim>\<open>datetime\<close>)\<close>

text \<open>
  A \<^verbatim>\<open>datetime\<close> is a \<^verbatim>\<open>date\<close> with a time of day, as in Python, where the one class
  extends the other. The program only builds values without a time zone; a stored string
  with a UTC offset, for which Python would build an offset-aware value, is outside the
  model (see \<open>fromisoformat\<close>).
\<close>

record date =
  year :: int
  month :: int
  day :: int

record datetime = date +
  hour :: int
  minute :: int
  second :: int
  microsecond :: int

definition MINYEAR :: int where "MINYEAR = 1"
definition MAXYEAR :: int where "MAXYEAR = 9999"
definition MAXORDINAL :: int where "MAXORDINAL = 3652059"

definition DAYS_IN_MONTH :: "int list" where
  "DAYS_IN_MONTH = [-1, 31, 28, 31, 30, 31, 30, 31, 31, 30, 31, 30, 31]"

definition DAYS_BEFORE_MONTH :: "int list" where
  "DAYS_BEFORE_MONTH = [-1, 0, 31, 59, 90, 120, 151, 181, 212, 243, 273, 304, 334]"

definition is_leap :: "int \<Rightarrow> bool" where
  "is_leap y \<longleftrightarrow> y mod 4 = 0 \<and> (y mod 100 \<noteq> 0 \<or> y mod 400 = 0)"

definition days_before_year :: "int \<Rightarrow> int" where
  "days_before_year y' = (let y = y' - 1 in y * 365 + y div 4 - y div 100 + y div 400)"

text \<open>Called with \<open>1 \<le> m \<le> 12\<close> only (Python asserts it).\<close>

definition days_in_month :: "int \<Rightarrow> int \<Rightarrow> int" where
  "days_in_month y m = (if m = 2 \<and> is_leap y then 29 else DAYS_IN_MONTH ! nat m)"

definition days_before_month :: "int \<Rightarrow> int \<Rightarrow> int" where
  "days_before_month y m = DAYS_BEFORE_MONTH ! nat m + (if m > 2 \<and> is_leap y then 1 else 0)"

definition ymd2ord :: "int \<Rightarrow> int \<Rightarrow> int \<Rightarrow> int" where
  "ymd2ord y m d = days_before_year y + days_before_month y m + d"

definition ord2ymd :: "int \<Rightarrow> int \<times> int \<times> int" where
  "ord2ymd n0 =
     (let n = n0 - 1;
          n400 = n div 146097; n = n mod 146097;
          y = n400 * 400 + 1;
          n100 = n div 36524; n = n mod 36524;
          n4 = n div 1461; n = n mod 1461;
          n1 = n div 365; n = n mod 365;
          y = y + n100 * 100 + n4 * 4 + n1
      in if n1 = 4 \<or> n100 = 4 then (y - 1, 12, 31)
         else
           let leapyear = (n1 = 3 \<and> (n4 \<noteq> 24 \<or> n100 = 3));
               m = (n + 50) div 32;
               preceding = DAYS_BEFORE_MONTH ! nat m + (if m > 2 \<and> leapyear then 1 else 0)
           in if preceding > n then
                let m' = m - 1;
                    preceding' = preceding - (DAYS_IN_MONTH ! nat m' + (if m' = 2 \<and> leapyear then 1 else 0))
                in (y, m', n - preceding' + 1)
              else (y, m, n - preceding + 1))"

definition check_date_fields :: "int \<Rightarrow> int \<Rightarrow> int \<Rightarrow> bool" where
  "check_date_fields y m d \<longleftrightarrow>
     MINYEAR \<le> y \<and> y \<le> MAXYEAR \<and> 1 \<le> m \<and> m \<le> 12 \<and> 1 \<le> d \<and> d \<le> days_in_month y m"

definition check_time_fields :: "int \<Rightarrow> int \<Rightarrow> int \<Rightarrow> int \<Rightarrow> bool" where
  "check_time_fields hh mm ss us \<longleftrightarrow>
     0 \<le> hh \<and> hh \<le> 23 \<and> 0 \<le> mm \<and> mm \<le> 59 \<and> 0 \<le> ss \<and> ss \<le> 59 \<and> 0 \<le> us \<and> us \<le> 999999"

text \<open>The constructor \<^verbatim>\<open>datetime(year, month, day, hour, minute, second, microsecond)\<close>.\<close>

definition datetime_new :: "int \<Rightarrow> int \<Rightarrow> int \<Rightarrow> int \<Rightarrow> int \<Rightarrow> int \<Rightarrow> int \<Rightarrow> py_exc + datetime" where
  "datetime_new y m d hh mm ss us =
     (if check_date_fields y m d \<and> check_time_fields hh mm ss us
      then Inr \<lparr>year = y, month = m, day = d, hour = hh, minute = mm, second = ss, microsecond = us\<rparr>
      else Inl ValueError)"

text \<open>The values Python can hold: every \<^verbatim>\<open>date\<close> and \<^verbatim>\<open>datetime\<close> object passed its checks.\<close>

definition valid_date :: "date \<Rightarrow> bool" where
  "valid_date d \<longleftrightarrow> check_date_fields (year d) (month d) (day d)"

definition valid_datetime :: "datetime \<Rightarrow> bool" where
  "valid_datetime t \<longleftrightarrow>
     check_date_fields (year t) (month t) (day t) \<and>
     check_time_fields (hour t) (minute t) (second t) (microsecond t)"

text \<open>
  Comparison of two values without time zone: Python compares the tuples of the seven
  fields, which the lexicographic order on products does.
\<close>

definition dt_key :: "datetime \<Rightarrow> int \<times> int \<times> int \<times> int \<times> int \<times> int \<times> int" where
  "dt_key t = (year t, month t, day t, hour t, minute t, second t, microsecond t)"

definition dt_less :: "datetime \<Rightarrow> datetime \<Rightarrow> bool" where
  "dt_less a b \<longleftrightarrow> dt_key a < dt_key b"

text \<open>
  \<^verbatim>\<open>timedelta(minutes=m)\<close>, normalised to days, seconds and microseconds; more than
  999999999 days either way is an \<^verbatim>\<open>OverflowError\<close>.
\<close>

definition timedelta_minutes :: "int \<Rightarrow> py_exc + int \<times> int \<times> int" where
  "timedelta_minutes m =
     (let s = m * 60; d = s div 86400 in
      if \<bar>d\<bar> > 999999999 then Inl OverflowError else Inr (d, s mod 86400, 0))"

text \<open>
  \<^verbatim>\<open>datetime.__add__\<close>: the sum is normalised, and a day outside \<open>1 .. MAXORDINAL\<close>
  (a year outside 1 to 9999) is an \<^verbatim>\<open>OverflowError\<close>.
\<close>

definition datetime_add :: "datetime \<Rightarrow> int \<times> int \<times> int \<Rightarrow> py_exc + datetime" where
  "datetime_add t delta =
     (case delta of (dd, ds, dus) \<Rightarrow>
        let us = microsecond t + dus;
            s = hour t * 3600 + minute t * 60 + second t + ds + us div 1000000;
            days = ymd2ord (year t) (month t) (day t) + dd + s div 86400;
            secs = s mod 86400
        in if 0 < days \<and> days \<le> MAXORDINAL then
             (case ord2ymd days of (y, m, d) \<Rightarrow>
                Inr \<lparr>year = y, month = m, day = d,
                     hour = secs div 3600, minute = (secs mod 3600) div 60,
                     second = (secs mod 3600) mod 60, microsecond = us mod 1000000\<rparr>)
           else Inl OverflowError)"

subsection \<open>Formatting\<close>

fun show_nat :: "nat \<Rightarrow> string" where
  "show_nat n = (if n < 10 then [digit_char n] else show_nat (n div 10) @ [digit_char (n mod 10)])"

declare show_nat.simps [simp del]

definition zfill :: "nat \<Rightarrow> string \<Rightarrow> string" where
  "zfill w s = replicate (w - length s) (CHR ''0'') @ s"

text \<open>The conversion \<^verbatim>\<open>"%0wd" % i\<close>.\<close>

definition fmt_d :: "nat \<Rightarrow> int \<Rightarrow> string" where
  "fmt_d w i = (if i < 0 then CHR ''-'' # zfill (w - 1) (show_nat (nat (- i))) else zfill w (show_nat (nat i)))"

text \<open>\<^verbatim>\<open>datetime.isoformat()\<close>: the microseconds are printed only when they are not zero.\<close>

definition isoformat :: "datetime \<Rightarrow> string" where
  "isoformat t =
     fmt_d 4 (year t) @ ''-'' @ fmt_d 2 (month t) @ ''-'' @ fmt_d 2 (day t) @ ''T'' @
     fmt_d 2 (hour t) @ '':'' @ fmt_d 2 (minute t) @ '':'' @ fmt_d 2 (second t) @
     (if microsecond t \<noteq> 0 then ''.'' @ fmt_d 6 (microsecond t) else [])"

text \<open>\<^verbatim>\<open>strftime("%d/%m %H:%M")\<close> and \<^verbatim>\<open>strftime("%H:%M")\<close>.\<close>

definition strftime_dm_HM :: "datetime \<Rightarrow> string" where
  "strftime_dm_HM t = fmt_d 2 (day t) @ ''/'' @ fmt_d 2 (month t) @ '' '' @ fmt_d 2 (hour t) @ '':'' @ fmt_d 2 (minute t)"

definition strftime_HM :: "datetime \<Rightarrow> string" where
  "strftime_HM t = fmt_d 2 (hour t) @ '':'' @ fmt_d 2 (minute t)"

subsection \<open>Parsing\<close>

definition parse_digits :: "string \<Rightarrow> int option" where
  "parse_digits s =
     (if s \<noteq> [] \<and> list_all is_digit s
      then Some (int (foldl (\<lambda>a c. a * 10 + digit_val c) 0 s)) else None)"

definition parse_isoformat_date :: "string \<Rightarrow> (int \<times> int \<times> int) option" where
  "parse_isoformat_date s =
     (case (parse_digits (take 4 s), parse_digits (take 2 (drop 5 s)), parse_digits (take 2 (drop 8 s))) of
        (Some y, Some m, Some d) \<Rightarrow>
          if length s = 10 \<and> s ! 4 = CHR ''-'' \<and> s ! 7 = CHR ''-'' then Some (y, m, d) else None
      | _ \<Rightarrow> None)"

definition parse_isoformat_time :: "string \<Rightarrow> (int \<times> int \<times> int \<times> int) option" where
  "parse_isoformat_time s =
     (let n = length s in
      if n = 2 then
        (case parse_digits s of Some hh \<Rightarrow> Some (hh, 0, 0, 0) | None \<Rightarrow> None)
      else if n = 5 then
        (case (parse_digits (take 2 s), parse_digits (drop 3 s)) of
           (Some hh, Some mm) \<Rightarrow> if s ! 2 = CHR '':'' then Some (hh, mm, 0, 0) else None
         | _ \<Rightarrow> None)
      else if n = 8 \<or> n = 12 \<or> n = 15 then
        (case (parse_digits (take 2 s), parse_digits (take 2 (drop 3 s)), parse_digits (take 2 (drop 6 s))) of
           (Some hh, Some mm, Some ss) \<Rightarrow>
             if s ! 2 = CHR '':'' \<and> s ! 5 = CHR '':'' then
               (if n = 8 then Some (hh, mm, ss, 0)
                else (case parse_digits (drop 9 s) of
                        Some f \<Rightarrow> if s ! 8 = CHR ''.'' then Some (hh, mm, ss, if n = 12 then f * 1000 else f) else None
                      | None \<Rightarrow> None))
             else None
         | _ \<Rightarrow> None)
      else None)"

text \<open>
  \<^verbatim>\<open>datetime.fromisoformat(s)\<close> for a string, by the grammar Python 3.7 to 3.10 documents,
  \<^verbatim>\<open>YYYY-MM-DD[*HH[:MM[:SS[.fff[fff]]]]]\<close> with any one character for \<open>*\<close>, followed by
  the constructor's range checks. Every failure is a \<^verbatim>\<open>ValueError\<close>. The optional UTC
  offset of that grammar is not modelled: such a string fails here, where Python builds
  an offset-aware value.
\<close>

definition fromisoformat :: "string \<Rightarrow> py_exc + datetime" where
  "fromisoformat s =
     (if length s < 10 then Inl ValueError
      else (case parse_isoformat_date (take 10 s) of
              None \<Rightarrow> Inl ValueError
            | Some (y, m, d) \<Rightarrow>
                if length s = 10 then datetime_new y m d 0 0 0 0
                else (case parse_isoformat_time (drop 11 s) of
                        None \<Rightarrow> Inl ValueError
                      | Some (hh, mm, ss, us) \<Rightarrow> datetime_new y m d hh mm ss us)))"

section \<open>Dynamically typed values\<close>

text \<open>
  What \<^verbatim>\<open>json.load\<close> returns, and what the constructor of an appointment may be handed:
  \<^verbatim>\<open>None\<close>, a bool, an int, a float, a string, a list or a dict. A finite float
  \<open>Finite m e\<close> is the number \<open>m * 2 ^ e\<close>. A dict is an association list with one
  entry for each key.
\<close>

datatype pyfloat = Finite int int | PosInf | NegInf | NaN

datatype pyval =
  PNone | PBool bool | PInt int | PFloat pyfloat | PStr string
  | PList "pyval list" | PDict "(string \<times> pyval) list"

text \<open>\<^verbatim>\<open>int(f)\<close> for a float truncates towards zero.\<close>

definition float_trunc :: "int \<Rightarrow> int \<Rightarrow> int" where
  "float_trunc m e =
     (if 0 \<le> e then m * 2 ^ nat e
      else if 0 \<le> m then m div 2 ^ nat (- e)
      else - ((- m) div 2 ^ nat (- e)))"

text \<open>The builtin \<^verbatim>\<open>int(x)\<close>.\<close>

definition py_int :: "pyval \<Rightarrow> py_exc + int" where
  "py_int x =
     (case x of
        PInt n \<Rightarrow> Inr n
      | PBool b \<Rightarrow> Inr (if b then 1 else 0)
      | PFloat f \<Rightarrow>
          (case f of
             Finite m e \<Rightarrow> Inr (float_trunc m e)
           | NaN \<Rightarrow> Inl ValueError
           | _ \<Rightarrow> Inl OverflowError)
      | PStr s \<Rightarrow> int_of_str s
      | _ \<Rightarrow> Inl TypeError)"

text \<open>The subscript \<^verbatim>\<open>d[k]\<close> with a string key.\<close>

definition getitem :: "pyval \<Rightarrow> string \<Rightarrow> py_exc + pyval" where
  "getitem d k =
     (case d of
        PDict kvs \<Rightarrow> (case map_of kvs k of None \<Rightarrow> Inl KeyError | Some v \<Rightarrow> Inr v)
      | _ \<Rightarrow> Inl TypeError)"

text \<open>The method call \<^verbatim>\<open>x.strip()\<close>: only a string has the method.\<close>

definition py_strip :: "pyval \<Rightarrow> py_exc + string" where
  "py_strip x = (case x of PStr s \<Rightarrow> Inr (strip s) | _ \<Rightarrow> Inl AttributeError)"

text \<open>\<^verbatim>\<open>datetime.fromisoformat(x)\<close>: the argument must be a string.\<close>

definition py_fromisoformat :: "pyval \<Rightarrow> py_exc + datetime" where
  "py_fromisoformat x = (case x of PStr s \<Rightarrow> fromisoformat s | _ \<Rightarrow> Inl TypeError)"

text \<open>
  What \<^verbatim>\<open>for d in data\<close> runs over: the elements of a list, the keys of a dict, the
  characters of a string; nothing else can be iterated.
\<close>

definition py_iter :: "pyval \<Rightarrow> py_exc + pyval list" where
  "py_iter x =
     (case x of
        PList xs \<Rightarrow> Inr xs
      | PDict kvs \<Rightarrow> Inr (map (\<lambda>kv. PStr (fst kv)) kvs)
      | PStr s \<Rightarrow> Inr (map (\<lambda>c. PStr [c]) s)
      | _ \<Rightarrow> Inl TypeError)"

section \<open>The domain model: \<^verbatim>\<open>Appuntamento\<close>\<close>

text \<open>
  The class defines neither \<^verbatim>\<open>__eq__\<close> nor \<^verbatim>\<open>__hash__\<close>: two appointments are equal in
  Python when they are the same object. The field \<open>oid\<close> is that identity; the three
  other fields are the attributes the constructor sets. The constructor stores the start
  it is given without looking at it, so the record is generic in the type \<open>'dt\<close> of the
  start; the program's appointments hold a \<open>datetime\<close>.
\<close>

record 'dt appuntamento_of =
  oid :: nat
  titolo :: string
  data_ora :: 'dt
  durata :: int

type_synonym appuntamento = "datetime appuntamento_of"

text \<open>\<^verbatim>\<open>Appuntamento.__init__\<close>, for the new object \<open>i\<close>.\<close>

definition Appuntamento_init :: "nat \<Rightarrow> pyval \<Rightarrow> 'dt \<Rightarrow> pyval \<Rightarrow> py_exc + 'dt appuntamento_of" where
  "Appuntamento_init i titolo' data_ora' durata_min =
     (case py_strip titolo' of
        Inl e \<Rightarrow> Inl e
      | Inr t \<Rightarrow>
          (case py_int durata_min of
             Inl e \<Rightarrow> Inl e
           | Inr n \<Rightarrow> Inr \<lparr>oid = i, titolo = t, data_ora = data_ora', durata = n\<rparr>))"

text \<open>The property \<^verbatim>\<open>fine\<close>: the computed end.\<close>

definition fine :: "appuntamento \<Rightarrow> py_exc + datetime" where
  "fine a =
     (case timedelta_minutes (durata a) of
        Inl e \<Rightarrow> Inl e
      | Inr delta \<Rightarrow> datetime_add (data_ora a) delta)"

definition to_dict :: "appuntamento \<Rightarrow> pyval" where
  "to_dict a =
     PDict [(''titolo'', PStr (titolo a)),
            (''data_ora'', PStr (isoformat (data_ora a))),
            (''durata'', PInt (durata a))]"

text \<open>
  \<^verbatim>\<open>Appuntamento.from_dict\<close>, building the object \<open>i\<close>. Python evaluates the three
  arguments from left to right and then calls the constructor. The two functions of the
  standard library that the method calls, \<^verbatim>\<open>datetime.fromisoformat\<close> and \<^verbatim>\<open>int\<close>, are
  parameters here: \<open>fromiso\<close> returns a start of whatever type, \<open>to_int\<close> an integer, or
  they raise.
\<close>

definition from_dict_lib ::
  "(pyval \<Rightarrow> py_exc + 'dt) \<Rightarrow> (pyval \<Rightarrow> py_exc + int) \<Rightarrow> nat \<Rightarrow> pyval \<Rightarrow> py_exc + 'dt appuntamento_of" where
  "from_dict_lib fromiso to_int i d =
     (case getitem d ''titolo'' of
        Inl e \<Rightarrow> Inl e
      | Inr t \<Rightarrow>
     (case getitem d ''data_ora'' of
        Inl e \<Rightarrow> Inl e
      | Inr ds \<Rightarrow>
     (case fromiso ds of
        Inl e \<Rightarrow> Inl e
      | Inr start \<Rightarrow>
     (case getitem d ''durata'' of
        Inl e \<Rightarrow> Inl e
      | Inr du \<Rightarrow>
     (case to_int du of
        Inl e \<Rightarrow> Inl e
      | Inr n \<Rightarrow> Appuntamento_init i t start (PInt n))))))"

text \<open>The method with the models of the two library functions given above.\<close>

definition from_dict :: "nat \<Rightarrow> pyval \<Rightarrow> py_exc + appuntamento" where
  "from_dict i d = from_dict_lib py_fromisoformat py_int i d"

text \<open>
  \<^verbatim>\<open>Appuntamento.__str__\<close>. The label is kept as the four pieces the format string
  puts together: the title, the start, the end and the duration.
\<close>

type_synonym label = "string \<times> string \<times> string \<times> int"

definition Appuntamento_str :: "appuntamento \<Rightarrow> py_exc + label" where
  "Appuntamento_str a =
     (let start = strftime_dm_HM (data_ora a) in
      case fine a of
        Inl e \<Rightarrow> Inl e
      | Inr f \<Rightarrow> Inr (titolo a, start, strftime_HM f, durata a))"

section \<open>The application: \<^verbatim>\<open>GestoreAppuntamenti\<close>\<close>

text \<open>
  The window is a record of what the methods read and write: the list of appointments,
  the rows of the listbox, the status bar, the four widgets of the form, the message
  boxes shown so far, the file \<^verbatim>\<open>appointments.json\<close> and the next fresh object identity.
  What the user and the file system answer is an argument of the method that asks.
\<close>

datatype status_text =
  Pronto | Aggiunta_annullata | Appuntamento_aggiunto | Appuntamento_cancellato
  | Errore_salvataggio py_exc

text \<open>
  The message boxes: an error, the warning of a failed load (with the exception it
  shows), an information, and the two questions, which name the title and the start of
  the conflicting appointment and the title of the selected one.
\<close>

datatype dialog =
  Showerror string | Showwarning py_exc | Showinfo string
  | Ask_sovrapposizione string string | Ask_cancellare string

text \<open>
  The save file, as reading it goes: \<^verbatim>\<open>json.load\<close> returns a value, or opening, decoding
  or parsing raises.
\<close>

datatype file_state = Readable pyval | Unreadable py_exc

text \<open>Writing the file succeeds, or raises and leaves something on the disk.\<close>

datatype write_result = Write_ok | Write_fails py_exc "file_state option"

record gestore =
  appuntamenti :: "appuntamento list"
  lst :: "label list"
  status :: status_text
  ent_title :: string
  cal_date :: date
  cmb_time :: string
  ent_duration :: string
  dialogs :: "dialog list"
  disk :: "file_state option"
  next_oid :: nat

text \<open>\<^verbatim>\<open>_time_slots\<close>: \<^verbatim>\<open>range(0, 60, step)\<close> raises for a zero step and is empty for a negative one.\<close>

definition time_slots :: "int \<Rightarrow> py_exc + string list" where
  "time_slots step_minutes =
     (if step_minutes = 0 then Inl ValueError
      else Inr (concat (map (\<lambda>h. map (\<lambda>m. fmt_d 2 h @ '':'' @ fmt_d 2 m)
                                    (filter (\<lambda>m. 0 < step_minutes \<and> m mod step_minutes = 0) (map int [0..<60])))
                            (map int [0..<24]))))"

text \<open>
  The second \<^verbatim>\<open>try\<close> block of \<^verbatim>\<open>_parse_form\<close>: the date of the calendar widget and the
  two numbers of the time string make the start. A wrong number of parts is the
  \<^verbatim>\<open>ValueError\<close> of the unpacking.
\<close>

definition parse_start :: "date \<Rightarrow> string \<Rightarrow> py_exc + datetime" where
  "parse_start d time_str =
     (case split_on (CHR '':'') time_str of
        [a, b] \<Rightarrow>
          (case int_of_str a of
             Inl e \<Rightarrow> Inl e
           | Inr hh \<Rightarrow>
               (case int_of_str b of
                  Inl e \<Rightarrow> Inl e
                | Inr mm \<Rightarrow> datetime_new (year d) (month d) (day d) hh mm 0 0))
      | _ \<Rightarrow> Inl ValueError)"

text \<open>
  \<^verbatim>\<open>_parse_form\<close>. \<open>Inr None\<close> is the \<^verbatim>\<open>return None\<close> after an error box; both \<^verbatim>\<open>try\<close>
  blocks catch what their bodies raise.
\<close>

definition parse_form :: "gestore \<Rightarrow> (py_exc + appuntamento option) \<times> gestore" where
  "parse_form s =
     (let title = strip (ent_title s);
          time_str = strip (cmb_time s);
          duration_str = strip (ent_duration s)
      in if title = [] \<or> time_str = [] \<or> duration_str = [] then
           (Inr None, s\<lparr>dialogs := dialogs s @ [Showerror ''Compila tutti i campi!'']\<rparr>)
         else
           (case int_of_str duration_str of
              Inl e \<Rightarrow>
                if e = ValueError then
                  (Inr None, s\<lparr>dialogs := dialogs s @ [Showerror ''La durata deve essere un intero positivo.'']\<rparr>)
                else (Inl e, s)
            | Inr duration \<Rightarrow>
                if duration \<le> 0 then
                  (Inr None, s\<lparr>dialogs := dialogs s @ [Showerror ''La durata deve essere un intero positivo.'']\<rparr>)
                else
                  (case parse_start (cal_date s) time_str of
                     Inl e \<Rightarrow>
                       (Inr None, s\<lparr>dialogs := dialogs s @ [Showerror ''Formato data/ora non valido.'']\<rparr>)
                   | Inr start_dt \<Rightarrow>
                       (case Appuntamento_init (next_oid s) (PStr title) start_dt (PInt duration) of
                          Inl e \<Rightarrow> (Inl e, s)
                        | Inr ap \<Rightarrow> (Inr (Some ap), s\<lparr>next_oid := Suc (next_oid s)\<rparr>)))))"

text \<open>
  \<^verbatim>\<open>_find_overlap\<close>: the first appointment of the list with
  \<^verbatim>\<open>new_ap.data_ora < ap.fine and new_ap.fine > ap.data_ora\<close>. The \<^verbatim>\<open>and\<close> evaluates its
  right side only when the left one holds.
\<close>

fun find_overlap :: "appuntamento list \<Rightarrow> appuntamento \<Rightarrow> py_exc + appuntamento option" where
  "find_overlap [] new_ap = Inr None"
| "find_overlap (ap # aps) new_ap =
     (case fine ap of
        Inl e \<Rightarrow> Inl e
      | Inr ap_fine \<Rightarrow>
          if dt_less (data_ora new_ap) ap_fine then
            (case fine new_ap of
               Inl e \<Rightarrow> Inl e
             | Inr new_fine \<Rightarrow>
                 if dt_less (data_ora ap) new_fine then Inr (Some ap)
                 else find_overlap aps new_ap)
          else find_overlap aps new_ap)"

text \<open>The loop of \<^verbatim>\<open>_refresh_list\<close> that fills the listbox; \<^verbatim>\<open>str(ap)\<close> may raise.\<close>

fun insert_rows :: "appuntamento list \<Rightarrow> label list \<Rightarrow> py_exc option \<times> label list" where
  "insert_rows [] rows = (None, rows)"
| "insert_rows (ap # aps) rows =
     (case Appuntamento_str ap of
        Inl e \<Rightarrow> (Some e, rows)
      | Inr l \<Rightarrow> insert_rows aps (rows @ [l]))"

text \<open>
  \<^verbatim>\<open>_refresh_list\<close>: the stable sort by start, then the listbox is emptied and filled.
  A method that returns nothing yields \<open>None\<close>, or the exception that left it.
\<close>

definition refresh_list :: "gestore \<Rightarrow> py_exc option \<times> gestore" where
  "refresh_list s =
     (let sorted_aps = sort_key (\<lambda>a. dt_key (data_ora a)) (appuntamenti s) in
      case insert_rows sorted_aps [] of
        (r, rows) \<Rightarrow> (r, s\<lparr>appuntamenti := sorted_aps, lst := rows\<rparr>))"

definition clear_form :: "gestore \<Rightarrow> gestore" where
  "clear_form s = s\<lparr>ent_title := [], cmb_time := [], ent_duration := []\<rparr>"

text \<open>\<^verbatim>\<open>_save\<close>: every exception ends in the status bar.\<close>

definition save :: "write_result \<Rightarrow> gestore \<Rightarrow> gestore" where
  "save w s =
     (let data = map to_dict (appuntamenti s) in
      case w of
        Write_ok \<Rightarrow> s\<lparr>disk := Some (Readable (PList data))\<rparr>
      | Write_fails e d \<Rightarrow> s\<lparr>disk := d, status := Errore_salvataggio e\<rparr>)"

text \<open>The list comprehension of \<^verbatim>\<open>_load\<close>, the objects taking the identities from \<open>i\<close> on.\<close>

fun from_dicts :: "nat \<Rightarrow> pyval list \<Rightarrow> py_exc + appuntamento list" where
  "from_dicts i [] = Inr []"
| "from_dicts i (d # ds) =
     (case from_dict i d of
        Inl e \<Rightarrow> Inl e
      | Inr a \<Rightarrow>
          (case from_dicts (Suc i) ds of
             Inl e \<Rightarrow> Inl e
           | Inr as \<Rightarrow> Inr (a # as)))"

text \<open>
  \<^verbatim>\<open>_load\<close>: no file, nothing happens; any exception of reading or converting is shown as
  a warning, and the assignment to the list has not happened.
\<close>

definition load :: "gestore \<Rightarrow> gestore" where
  "load s =
     (case disk s of
        None \<Rightarrow> s
      | Some f \<Rightarrow>
          (case f of
             Unreadable e \<Rightarrow> s\<lparr>dialogs := dialogs s @ [Showwarning e]\<rparr>
           | Readable data \<Rightarrow>
               (case py_iter data of
                  Inl e \<Rightarrow> s\<lparr>dialogs := dialogs s @ [Showwarning e]\<rparr>
                | Inr ds \<Rightarrow>
                    (case from_dicts (next_oid s) ds of
                       Inl e \<Rightarrow> s\<lparr>dialogs := dialogs s @ [Showwarning e]\<rparr>
                     | Inr aps \<Rightarrow> s\<lparr>appuntamenti := aps, next_oid := next_oid s + length ds\<rparr>))))"

text \<open>
  Lines 188 to 192 of \<^verbatim>\<open>_add_appointment\<close>: the appointment is appended, the list
  sorted and shown, the form cleared, the file written.
\<close>

definition append_appointment :: "appuntamento \<Rightarrow> write_result \<Rightarrow> gestore \<Rightarrow> py_exc option \<times> gestore" where
  "append_appointment ap w s =
     (case refresh_list (s\<lparr>appuntamenti := appuntamenti s @ [ap]\<rparr>) of
        (Some e, s') \<Rightarrow> (Some e, s')
      | (None, s') \<Rightarrow> (None, (save w (clear_form s'))\<lparr>status := Appuntamento_aggiunto\<rparr>))"

text \<open>
  \<^verbatim>\<open>_add_appointment\<close>. \<open>yes\<close> is the user's answer to the question about an overlap,
  \<open>w\<close> what writing the file does.
\<close>

definition add_appointment :: "bool \<Rightarrow> write_result \<Rightarrow> gestore \<Rightarrow> py_exc option \<times> gestore" where
  "add_appointment yes w s =
     (case parse_form s of
        (Inl e, s1) \<Rightarrow> (Some e, s1)
      | (Inr None, s1) \<Rightarrow> (None, s1)
      | (Inr (Some ap), s1) \<Rightarrow>
          (case find_overlap (appuntamenti s1) ap of
             Inl e \<Rightarrow> (Some e, s1)
           | Inr None \<Rightarrow> append_appointment ap w s1
           | Inr (Some conflict) \<Rightarrow>
               (let s2 = s1\<lparr>dialogs := dialogs s1 @
                              [Ask_sovrapposizione (titolo conflict) (strftime_dm_HM (data_ora conflict))]\<rparr>
                in if \<not> yes then (None, s2\<lparr>status := Aggiunta_annullata\<rparr>)
                   else append_appointment ap w s2)))"

text \<open>
  \<^verbatim>\<open>_delete_selected\<close>. \<open>sel\<close> is the tuple \<^verbatim>\<open>curselection()\<close> returns, \<open>yes\<close> the answer
  to the confirmation. An index past the end of the list is Python's \<^verbatim>\<open>IndexError\<close>.
\<close>

definition delete_selected :: "nat list \<Rightarrow> bool \<Rightarrow> write_result \<Rightarrow> gestore \<Rightarrow> py_exc option \<times> gestore" where
  "delete_selected sel yes w s =
     (case sel of
        [] \<Rightarrow> (None, s\<lparr>dialogs := dialogs s @ [Showinfo ''Seleziona un appuntamento da cancellare.'']\<rparr>)
      | idx # _ \<Rightarrow>
          if idx \<ge> length (appuntamenti s) then (Some IndexError, s)
          else
            (let ap = appuntamenti s ! idx;
                 s1 = s\<lparr>dialogs := dialogs s @ [Ask_cancellare (titolo ap)]\<rparr>
             in if yes then
                  (case refresh_list (s1\<lparr>appuntamenti := take idx (appuntamenti s1) @ drop (Suc idx) (appuntamenti s1)\<rparr>) of
                     (Some e, s') \<Rightarrow> (Some e, s')
                   | (None, s') \<Rightarrow> (None, (save w s')\<lparr>status := Appuntamento_cancellato\<rparr>))
                else (None, s1)))"

text \<open>
  \<^verbatim>\<open>GestoreAppuntamenti.__init__\<close>: the empty window (the calendar widget shows \<open>today\<close>),
  then \<^verbatim>\<open>_load\<close> and \<^verbatim>\<open>_refresh_list\<close>.
\<close>

definition new_gestore :: "file_state option \<Rightarrow> date \<Rightarrow> gestore" where
  "new_gestore fs today =
     \<lparr>appuntamenti = [], lst = [], status = Pronto, ent_title = [], cal_date = today,
      cmb_time = [], ent_duration = [], dialogs = [], disk = fs, next_oid = 0\<rparr>"

definition gestore_init :: "file_state option \<Rightarrow> date \<Rightarrow> py_exc option \<times> gestore" where
  "gestore_init fs today = refresh_list (load (new_gestore fs today))"

text \<open>\<^verbatim>\<open>_on_close\<close>: the file is written and the window destroyed.\<close>

definition on_close :: "write_result \<Rightarrow> gestore \<Rightarrow> gestore" where
  "on_close w s = save w s"

section \<open>Notions of the specification\<close>

text \<open>
  The overlap rule in the specification's words: the half-open intervals \<open>[s1, e1)\<close>
  and \<open>[s2, e2)\<close> overlap iff \<open>s1 < e2\<close> and \<open>e1 > s2\<close>.
\<close>

definition half_open_overlap :: "datetime \<Rightarrow> datetime \<Rightarrow> datetime \<Rightarrow> datetime \<Rightarrow> bool" where
  "half_open_overlap s1 e1 s2 e2 \<longleftrightarrow> dt_less s1 e2 \<and> dt_less s2 e1"

text \<open>The list is in ascending order of start.\<close>

definition sorted_by_start :: "appuntamento list \<Rightarrow> bool" where
  "sorted_by_start aps \<longleftrightarrow> sorted (map (\<lambda>a. dt_key (data_ora a)) aps)"

text \<open>The end of the appointment can be computed: \<^verbatim>\<open>fine\<close> does not raise.\<close>

definition has_end :: "appuntamento \<Rightarrow> bool" where
  "has_end a = (case fine a of Inl e \<Rightarrow> False | Inr f \<Rightarrow> True)"

text \<open>
  The candidate \<open>c\<close> and the appointment \<open>x\<close> overlap, by the half-open rule on their
  starts and computed ends.
\<close>

definition spec_overlaps :: "appuntamento \<Rightarrow> appuntamento \<Rightarrow> bool" where
  "spec_overlaps c x =
     (case fine c of
        Inl e \<Rightarrow> False
      | Inr e1 \<Rightarrow>
          (case fine x of
             Inl e \<Rightarrow> False
           | Inr e2 \<Rightarrow> half_open_overlap (data_ora c) e1 (data_ora x) e2))"

text \<open>
  The states the window can be in: after the constructor returned, and from then on
  after the user filled the form, pressed one of the two buttons (whatever was selected
  and answered, and whether or not the callback raised), or closed the window.
\<close>

inductive reachable :: "gestore \<Rightarrow> bool" where
  constructed: "fst (gestore_init fs today) = None \<Longrightarrow> reachable (snd (gestore_init fs today))"
| filled: "reachable s \<Longrightarrow> reachable (s\<lparr>ent_title := t, cal_date := d, cmb_time := tm, ent_duration := du\<rparr>)"
| added: "reachable s \<Longrightarrow> reachable (snd (add_appointment yes w s))"
| deleted: "reachable s \<Longrightarrow> reachable (snd (delete_selected sel yes w s))"
| closed: "reachable s \<Longrightarrow> reachable (on_close w s)"

text \<open>
  What holds of the list in every such state: it is sorted by start, its objects are
  distinct and older than the next fresh identity, and their titles are stripped.
\<close>

definition list_inv :: "gestore \<Rightarrow> bool" where
  "list_inv s \<longleftrightarrow>
     sorted_by_start (appuntamenti s) \<and> distinct (map oid (appuntamenti s)) \<and>
     (\<forall>a \<in> set (appuntamenti s). oid a < next_oid s \<and> titolo a = strip (titolo a))"

text \<open>
  The exception, if any, that \<^verbatim>\<open>_load\<close> meets on the file \<open>f\<close>: reading it, iterating
  over what was read, or building the appointments (the first being the object \<open>i\<close>).
\<close>

definition load_error :: "file_state \<Rightarrow> nat \<Rightarrow> py_exc option" where
  "load_error f i =
     (case f of
        Unreadable e \<Rightarrow> Some e
      | Readable data \<Rightarrow>
          (case py_iter data of
             Inl e \<Rightarrow> Some e
           | Inr ds \<Rightarrow>
               (case from_dicts i ds of
                  Inl e \<Rightarrow> Some e
                | Inr aps \<Rightarrow> None)))"

text \<open>
  A well-formed record in the specification's words: the three fields are there, each
  of its type (a string, a string, an integer), and the start is a parseable ISO-8601
  date-time.
\<close>

definition spec_record_ok :: "pyval \<Rightarrow> bool" where
  "spec_record_ok d =
     (case d of
        PDict kvs \<Rightarrow>
          (case (map_of kvs ''titolo'', map_of kvs ''data_ora'', map_of kvs ''durata'') of
             (Some (PStr t), Some (PStr ds), Some (PInt n)) \<Rightarrow>
               (case fromisoformat ds of Inl e \<Rightarrow> False | Inr start \<Rightarrow> True)
           | _ \<Rightarrow> False)
      | _ \<Rightarrow> False)"

text \<open>
  The records \<^verbatim>\<open>from_dict\<close> takes, whatever the two library functions do: a dict with
  the three fields, the title a string, the start something \<^verbatim>\<open>datetime.fromisoformat\<close>
  returns a value for, the duration something \<^verbatim>\<open>int\<close> returns a value for.
\<close>

definition record_accepted_lib ::
  "(pyval \<Rightarrow> py_exc + 'dt) \<Rightarrow> (pyval \<Rightarrow> py_exc + int) \<Rightarrow> pyval \<Rightarrow> bool" where
  "record_accepted_lib fromiso to_int d =
     (case d of
        PDict kvs \<Rightarrow>
          (case (map_of kvs ''titolo'', map_of kvs ''data_ora'', map_of kvs ''durata'') of
             (Some (PStr t), Some ds, Some du) \<Rightarrow>
               (case fromiso ds of
                  Inl e \<Rightarrow> False
                | Inr start \<Rightarrow> (case to_int du of Inl e \<Rightarrow> False | Inr n \<Rightarrow> True))
           | _ \<Rightarrow> False)
      | _ \<Rightarrow> False)"

text \<open>
  What \<^verbatim>\<open>int()\<close> converts: an integer, a bool, a finite float and a string that holds a
  decimal integer.
\<close>

definition int_convertible :: "pyval \<Rightarrow> bool" where
  "int_convertible x =
     (case x of
        PInt n \<Rightarrow> True
      | PBool b \<Rightarrow> True
      | PFloat f \<Rightarrow> (case f of Finite m e \<Rightarrow> True | _ \<Rightarrow> False)
      | PStr s \<Rightarrow> (case int_of_str s of Inl e \<Rightarrow> False | Inr n \<Rightarrow> True)
      | _ \<Rightarrow> False)"

text \<open>The values the read-only time combobox offers: \<^verbatim>\<open>values=self._time_slots()\<close>.\<close>

definition cmb_time_values :: "string list" where
  "cmb_time_values = (case time_slots 30 of Inl e \<Rightarrow> [] | Inr slots \<Rightarrow> slots)"

text \<open>
  The text of the duration field, stripped as \<^verbatim>\<open>_parse_form\<close> strips it, is a positive
  integer as \<^verbatim>\<open>int()\<close> reads it.
\<close>

definition duration_ok :: "string \<Rightarrow> bool" where
  "duration_ok duration_str =
     (case int_of_str (strip duration_str) of Inl e \<Rightarrow> False | Inr n \<Rightarrow> 0 < n)"

text \<open>The appointments of a list are appended one after the other (each write succeeding).\<close>

definition append_all :: "appuntamento list \<Rightarrow> gestore \<Rightarrow> gestore" where
  "append_all xs s = foldl (\<lambda>s' x. snd (append_appointment x Write_ok s')) s xs"

section \<open>Example values\<close>

definition ex_date :: date where
  "ex_date = \<lparr>year = 2024, month = 3, day = 15\<rparr>"

definition ex_at :: "int \<Rightarrow> int \<Rightarrow> datetime" where
  "ex_at hh mm = \<lparr>year = 2024, month = 3, day = 15, hour = hh, minute = mm, second = 0, microsecond = 0\<rparr>"

definition ex_ap :: "nat \<Rightarrow> string \<Rightarrow> int \<Rightarrow> int \<Rightarrow> int \<Rightarrow> appuntamento" where
  "ex_ap i t hh mm n = \<lparr>oid = i, titolo = t, data_ora = ex_at hh mm, durata = n\<rparr>"

text \<open>A stored record whose title carries blanks, and the window that starts on it.\<close>

definition ex_record :: pyval where
  "ex_record =
     PDict [(''titolo'', PStr '' Dentist ''), (''data_ora'', PStr ''2024-03-15T09:00:00''),
            (''durata'', PInt 30)]"

definition ex_loaded :: gestore where
  "ex_loaded = snd (gestore_init (Some (Readable (PList [ex_record]))) ex_date)"

text \<open>The window that starts without a file, and the user filling the form.\<close>

definition ex_empty :: gestore where
  "ex_empty = snd (gestore_init None ex_date)"

definition ex_fill :: "string \<Rightarrow> string \<Rightarrow> string \<Rightarrow> gestore \<Rightarrow> gestore" where
  "ex_fill t tm du s = s\<lparr>ent_title := t, cal_date := ex_date, cmb_time := tm, ent_duration := du\<rparr>"

text \<open>Three appointments of 30 minutes entered in the order 10:00, 08:00, 09:00.\<close>

definition ex_three :: gestore where
  "ex_three =
     snd (add_appointment False Write_ok (ex_fill ''C'' ''09:00'' ''30''
       (snd (add_appointment False Write_ok (ex_fill ''B'' ''08:00'' ''30''
         (snd (add_appointment False Write_ok (ex_fill ''A'' ''10:00'' ''30'' ex_empty))))))))"

text \<open>Stored records whose duration is a string, and a float (30.5).\<close>

definition ex_record_str :: pyval where
  "ex_record_str =
     PDict [(''titolo'', PStr ''Dentist''), (''data_ora'', PStr ''2024-03-15T09:00:00''),
            (''durata'', PStr ''30'')]"

definition ex_record_float :: pyval where
  "ex_record_float =
     PDict [(''titolo'', PStr ''Dentist''), (''data_ora'', PStr ''2024-03-15T09:00:00''),
            (''durata'', PFloat (Finite 61 (- 1)))]"

text \<open>
  One appointment from 09:00 to 10:00 is in the list, and the form holds a second one
  from 09:30 to 10:30.
\<close>

definition ex_conflict :: gestore where
  "ex_conflict =
     ex_fill ''B'' ''09:30'' ''60''
       (snd (add_appointment False Write_ok (ex_fill ''A'' ''09:00'' ''60'' ex_empty)))"

section \<open>Lemmas\<close>

lemma dt_less_irrefl: "\<not> dt_less t t"
  by (simp add: dt_less_def)

lemma fine_oid: "fine (a\<lparr>oid := j\<rparr>) = fine a"
  by (simp add: fine_def split: sum.splits)

lemma fine_ex_ap_9_60: "fine (ex_ap i t 9 0 60) = Inr (ex_at 10 0)"
  by (simp add: fine_def ex_ap_def ex_at_def timedelta_minutes_def datetime_add_def ymd2ord_def
      ord2ymd_def days_before_year_def days_before_month_def MAXORDINAL_def is_leap_def
      DAYS_BEFORE_MONTH_def DAYS_IN_MONTH_def Let_def)

lemma fine_ex_ap_930_60: "fine (ex_ap i t 9 30 60) = Inr (ex_at 10 30)"
  by (simp add: fine_def ex_ap_def ex_at_def timedelta_minutes_def datetime_add_def ymd2ord_def
      ord2ymd_def days_before_year_def days_before_month_def MAXORDINAL_def is_leap_def
      DAYS_BEFORE_MONTH_def DAYS_IN_MONTH_def Let_def)

lemma fine_ex_ap_10_60: "fine (ex_ap i t 10 0 60) = Inr (ex_at 11 0)"
  by (simp add: fine_def ex_ap_def ex_at_def timedelta_minutes_def datetime_add_def ymd2ord_def
      ord2ymd_def days_before_year_def days_before_month_def MAXORDINAL_def is_leap_def
      DAYS_BEFORE_MONTH_def DAYS_IN_MONTH_def Let_def)

lemma fine_ex_ap_8_60: "fine (ex_ap i t 8 0 60) = Inr (ex_at 9 0)"
  by (simp add: fine_def ex_ap_def ex_at_def timedelta_minutes_def datetime_add_def ymd2ord_def
      ord2ymd_def days_before_year_def days_before_month_def MAXORDINAL_def is_leap_def
      DAYS_BEFORE_MONTH_def DAYS_IN_MONTH_def Let_def)

lemma rstrip_hd: "rstrip s \<noteq> [] \<Longrightarrow> hd (rstrip s) = hd s"
  unfolding rstrip_def
  by (metis dropWhile_eq_Nil_conv hd_append2 rev_is_Nil_conv rev_rev_ident takeWhile_dropWhile_id rev_append)

lemma lstrip_idem: "lstrip (lstrip s) = lstrip s"
  by (simp add: lstrip_def)

lemma rstrip_idem: "rstrip (rstrip s) = rstrip s"
  by (simp add: rstrip_def)

lemma lstrip_strip: "lstrip (strip s) = strip s"
proof (cases "strip s = []")
  case True
  then show ?thesis by (simp add: lstrip_def)
next
  case False
  then have "hd (strip s) = hd (lstrip s)"
    unfolding strip_def by (rule rstrip_hd)
  moreover have "lstrip s \<noteq> []"
    using False by (auto simp: strip_def rstrip_def)
  then have "\<not> is_space (hd (lstrip s))"
    unfolding lstrip_def by (rule hd_dropWhile)
  ultimately show ?thesis
    using False by (simp add: lstrip_def dropWhile_eq_self_iff)
qed

lemma strip_idem: "strip (strip s) = strip s"
proof -
  have "strip (strip s) = rstrip (strip s)"
    by (simp add: strip_def [of "strip s"] lstrip_strip)
  also have "\<dots> = strip s"
    by (simp add: strip_def rstrip_idem)
  finally show ?thesis .
qed

lemma less_10_cases:
  "d < 10 \<Longrightarrow> d = 0 \<or> d = 1 \<or> d = 2 \<or> d = 3 \<or> d = 4 \<or> d = 5 \<or> d = 6 \<or> d = 7 \<or> d = 8 \<or> d = (9::nat)"
  by arith

lemma is_digit_digit_char: "d < 10 \<Longrightarrow> is_digit (digit_char d)"
  by (drule less_10_cases) (auto simp: is_digit_def digit_char_def)

lemma digit_val_digit_char: "d < 10 \<Longrightarrow> digit_val (digit_char d) = d"
  by (drule less_10_cases) (auto simp: digit_val_def digit_char_def)

lemma show_nat_digits: "list_all is_digit (show_nat n)"
  by (induction n rule: show_nat.induct) (subst show_nat.simps, simp add: is_digit_digit_char)

lemma show_nat_not_Nil: "show_nat n \<noteq> []"
  by (subst show_nat.simps) simp

lemma foldl_show_nat: "foldl (\<lambda>a c. a * 10 + digit_val c) 0 (show_nat n) = n"
  by (induction n rule: show_nat.induct) (subst show_nat.simps, simp add: digit_val_digit_char)

lemma length_show_nat: "n < 10 ^ w \<Longrightarrow> 0 < w \<Longrightarrow> length (show_nat n) \<le> w"
proof (induction n arbitrary: w rule: show_nat.induct)
  case (1 n)
  show ?case
  proof (cases "n < 10")
    case True
    then show ?thesis using 1(3) by (subst show_nat.simps) simp
  next
    case False
    obtain v where v: "w = Suc v"
      using 1(3) by (cases w) auto
    have "0 < v"
    proof (rule ccontr)
      assume "\<not> 0 < v"
      then show False using 1(2) False v by simp
    qed
    note w = v this
    have "n div 10 < 10 ^ v" using 1(2) w by (simp add: less_mult_imp_div_less mult.commute)
    from 1(1) [OF False this w(2)] show ?thesis
      using False w by (subst show_nat.simps) simp
  qed
qed

lemma foldl_zeros: "foldl (\<lambda>a c. a * 10 + digit_val c) 0 (replicate k (CHR ''0'')) = 0"
  by (induction k) (simp_all add: digit_val_def)

lemma zeros_digits: "list_all is_digit (replicate k (CHR ''0''))"
  by (induction k) (simp_all add: is_digit_def)

lemma parse_digits_zfill: "parse_digits (zfill w (show_nat n)) = Some (int n)"
  by (simp add: parse_digits_def zfill_def show_nat_not_Nil show_nat_digits foldl_zeros foldl_show_nat zeros_digits)

lemma length_zfill: "length s \<le> w \<Longrightarrow> length (zfill w s) = w"
  by (simp add: zfill_def)

lemma parse_fmt_d: "0 \<le> i \<Longrightarrow> parse_digits (fmt_d w i) = Some i"
  by (simp add: fmt_d_def parse_digits_zfill)

lemma length_fmt_d: "0 \<le> i \<Longrightarrow> i < 10 ^ w \<Longrightarrow> 0 < w \<Longrightarrow> length (fmt_d w i) = w"
  by (simp add: fmt_d_def length_zfill length_show_nat nat_less_iff)


lemma list2: "length xs = 2 \<Longrightarrow> \<exists>a b. xs = [a, b]"
  by (cases xs; cases "tl xs") auto

lemma list4: "length xs = 4 \<Longrightarrow> \<exists>a b c d. xs = [a, b, c, d]"
  by (auto simp: length_Suc_conv numeral_eq_Suc)

lemma list6: "length xs = 6 \<Longrightarrow> \<exists>a b c d e f. xs = [a, b, c, d, e, f]"
  by (auto simp: length_Suc_conv numeral_eq_Suc)

lemma days_in_month_le: "1 \<le> m \<Longrightarrow> m \<le> 12 \<Longrightarrow> days_in_month y m \<le> 31"
proof -
  assume "1 \<le> m" "m \<le> 12"
  then have "m = 1 \<or> m = 2 \<or> m = 3 \<or> m = 4 \<or> m = 5 \<or> m = 6 \<or> m = 7 \<or> m = 8 \<or> m = 9 \<or> m = 10 \<or> m = 11 \<or> m = 12"
    by arith
  then show ?thesis
    by (auto simp: days_in_month_def DAYS_IN_MONTH_def)
qed

lemma fromisoformat_isoformat:
  assumes "valid_datetime t"
  shows "fromisoformat (isoformat t) = Inr t"
proof -
  from assms have d: "check_date_fields (year t) (month t) (day t)"
    and tm: "check_time_fields (hour t) (minute t) (second t) (microsecond t)"
    by (simp_all add: valid_datetime_def)
  from d have "day t \<le> 31"
    using days_in_month_le [of "month t" "year t"] by (simp add: check_date_fields_def)
  with d tm have r: "0 \<le> year t" "year t < 10 ^ 4" "0 \<le> month t" "month t < 10 ^ 2"
      "0 \<le> day t" "day t < 10 ^ 2" "0 \<le> hour t" "hour t < 10 ^ 2" "0 \<le> minute t" "minute t < 10 ^ 2"
      "0 \<le> second t" "second t < 10 ^ 2" "0 \<le> microsecond t" "microsecond t < 10 ^ 6"
    by (simp_all add: check_date_fields_def check_time_fields_def MINYEAR_def MAXYEAR_def)
  obtain y1 y2 y3 y4 where Y: "fmt_d 4 (year t) = [y1, y2, y3, y4]"
    using list4 [OF length_fmt_d [OF r(1,2)]] by auto
  obtain m1 m2 where M: "fmt_d 2 (month t) = [m1, m2]"
    using list2 [OF length_fmt_d [OF r(3,4)]] by auto
  obtain d1 d2 where D: "fmt_d 2 (day t) = [d1, d2]"
    using list2 [OF length_fmt_d [OF r(5,6)]] by auto
  obtain h1 h2 where H: "fmt_d 2 (hour t) = [h1, h2]"
    using list2 [OF length_fmt_d [OF r(7,8)]] by auto
  obtain i1 i2 where I: "fmt_d 2 (minute t) = [i1, i2]"
    using list2 [OF length_fmt_d [OF r(9,10)]] by auto
  obtain s1 s2 where S: "fmt_d 2 (second t) = [s1, s2]"
    using list2 [OF length_fmt_d [OF r(11,12)]] by auto
  obtain u1 u2 u3 u4 u5 u6 where U: "fmt_d 6 (microsecond t) = [u1, u2, u3, u4, u5, u6]"
    using list6 [OF length_fmt_d [OF r(13,14)]] by auto
  have p: "parse_digits [y1, y2, y3, y4] = Some (year t)" "parse_digits [m1, m2] = Some (month t)"
      "parse_digits [d1, d2] = Some (day t)" "parse_digits [h1, h2] = Some (hour t)"
      "parse_digits [i1, i2] = Some (minute t)" "parse_digits [s1, s2] = Some (second t)"
      "parse_digits [u1, u2, u3, u4, u5, u6] = Some (microsecond t)"
    using parse_fmt_d [OF r(1), of 4] parse_fmt_d [OF r(3), of 2] parse_fmt_d [OF r(5), of 2]
      parse_fmt_d [OF r(7), of 2] parse_fmt_d [OF r(9), of 2] parse_fmt_d [OF r(11), of 2]
      parse_fmt_d [OF r(13), of 6]
    by (simp_all add: Y M D H I S U)
  show ?thesis
    using tm
    by (auto simp: isoformat_def Y M D H I S U fromisoformat_def parse_isoformat_date_def
        parse_isoformat_time_def p datetime_new_def d)
qed

lemma parse_form_frame:
  "appuntamenti (snd (parse_form s)) = appuntamenti s \<and> next_oid s \<le> next_oid (snd (parse_form s))
   \<and> ent_title (snd (parse_form s)) = ent_title s \<and> cmb_time (snd (parse_form s)) = cmb_time s
   \<and> ent_duration (snd (parse_form s)) = ent_duration s \<and> cal_date (snd (parse_form s)) = cal_date s"
  by (simp add: parse_form_def Let_def split: sum.splits)

lemma parse_form_Some:
  assumes "fst (parse_form s) = Inr (Some ap)"
  shows "oid ap = next_oid s \<and> next_oid (snd (parse_form s)) = Suc (next_oid s)
         \<and> titolo ap = strip (ent_title s) \<and> 0 < durata ap
         \<and> int_of_str (strip (ent_duration s)) = Inr (durata ap)
         \<and> parse_start (cal_date s) (strip (cmb_time s)) = Inr (data_ora ap)"
  using assms
  by (auto simp: parse_form_def Let_def Appuntamento_init_def py_strip_def py_int_def strip_idem
      split: sum.splits if_splits)

lemma refresh_list_appuntamenti:
  "appuntamenti (snd (refresh_list s)) = sort_key (\<lambda>a. dt_key (data_ora a)) (appuntamenti s)
   \<and> next_oid (snd (refresh_list s)) = next_oid s"
  by (simp add: refresh_list_def Let_def split: prod.splits)

lemma save_frame: "appuntamenti (save w s) = appuntamenti s \<and> next_oid (save w s) = next_oid s"
  by (cases w) (simp_all add: save_def)

lemma append_appointment_appuntamenti:
  "appuntamenti (snd (append_appointment ap w s)) = sort_key (\<lambda>a. dt_key (data_ora a)) (appuntamenti s @ [ap])
   \<and> next_oid (snd (append_appointment ap w s)) = next_oid s"
  using refresh_list_appuntamenti [of "s\<lparr>appuntamenti := appuntamenti s @ [ap]\<rparr>"]
  by (auto simp: append_appointment_def save_frame clear_form_def split: prod.splits option.splits)

lemma add_appointment_cases:
  "(appuntamenti (snd (add_appointment yes w s)) = appuntamenti s
      \<and> next_oid s \<le> next_oid (snd (add_appointment yes w s)))
   \<or> (\<exists>ap. fst (parse_form s) = Inr (Some ap)
        \<and> appuntamenti (snd (add_appointment yes w s)) = sort_key (\<lambda>a. dt_key (data_ora a)) (appuntamenti s @ [ap])
        \<and> next_oid (snd (add_appointment yes w s)) = Suc (next_oid s))"
proof (cases "parse_form s")
  case (Pair r s1)
  have f: "appuntamenti s1 = appuntamenti s" "next_oid s \<le> next_oid s1"
    using parse_form_frame [of s] Pair by simp_all
  show ?thesis
  proof (cases r)
    case (Inl e)
    then show ?thesis using Pair f by (simp add: add_appointment_def)
  next
    case (Inr o1)
    show ?thesis
    proof (cases o1)
      case None
      then show ?thesis using Pair Inr f by (simp add: add_appointment_def)
    next
      case (Some ap)
      have n: "next_oid s1 = Suc (next_oid s)"
        using parse_form_Some [of s ap] Pair Inr Some by simp
      show ?thesis
        using Pair Inr Some f n
        by (auto simp: add_appointment_def Let_def append_appointment_appuntamenti
            split: sum.splits option.splits)
    qed
  qed
qed

lemma delete_selected_cases:
  "next_oid (snd (delete_selected sel yes w s)) = next_oid s
   \<and> (appuntamenti (snd (delete_selected sel yes w s)) = appuntamenti s
      \<or> (\<exists>idx rest. sel = idx # rest \<and> yes \<and> idx < length (appuntamenti s)
          \<and> appuntamenti (snd (delete_selected sel yes w s)) =
              sort_key (\<lambda>a. dt_key (data_ora a)) (take idx (appuntamenti s) @ drop (Suc idx) (appuntamenti s))))"
proof (cases sel)
  case Nil
  then show ?thesis by (simp add: delete_selected_def)
next
  case (Cons idx rest)
  show ?thesis
    using Cons
      refresh_list_appuntamenti [of "s\<lparr>dialogs := dialogs s @ [Ask_cancellare (titolo (appuntamenti s ! idx))],
        appuntamenti := take idx (appuntamenti s) @ drop (Suc idx) (appuntamenti s)\<rparr>"]
    by (auto simp: delete_selected_def Let_def save_frame split: prod.splits option.splits)
qed


lemma distinct_oid_sort:
  "distinct (map oid (sort_key k xs)) = distinct (map oid xs)"
  by (simp add: distinct_map)

lemma list_inv_sort:
  assumes "distinct (map oid xs)" and "\<forall>a \<in> set xs. oid a < n \<and> titolo a = strip (titolo a)"
    and "appuntamenti s' = sort_key (\<lambda>a. dt_key (data_ora a)) xs" and "next_oid s' = n"
  shows "list_inv s'"
  using assms by (simp add: list_inv_def sorted_by_start_def distinct_oid_sort)

lemma distinct_oid_delete:
  assumes "distinct (map oid xs)"
  shows "distinct (map oid (take i xs @ drop (Suc i) xs))"
proof -
  have "map oid (take i xs @ drop (Suc i) xs) = take i (map oid xs) @ drop (Suc i) (map oid xs)"
    by (simp add: take_map drop_map)
  moreover have "distinct (take i (map oid xs) @ drop (Suc i) (map oid xs))"
    using assms set_take_disj_set_drop_if_distinct [of "map oid xs" i "Suc i"]
    by simp
  ultimately show ?thesis by simp
qed

lemma set_delete_subset: "set (take i xs @ drop (Suc i) xs) \<subseteq> set xs"
  using set_take_subset [of i xs] set_drop_subset [of "Suc i" xs] by auto

lemma from_dict_props:
  assumes "from_dict i d = Inr a"
  shows "oid a = i \<and> titolo a = strip (titolo a)"
  using assms
  by (auto simp: from_dict_def from_dict_lib_def Appuntamento_init_def py_strip_def py_int_def strip_idem
      split: sum.splits pyval.splits)

lemma from_dicts_props:
  "from_dicts i ds = Inr aps \<Longrightarrow>
     map oid aps = [i..<i + length ds] \<and> (\<forall>a \<in> set aps. titolo a = strip (titolo a))"
proof (induction ds arbitrary: i aps)
  case Nil
  then show ?case by simp
next
  case (Cons d ds)
  from Cons.prems obtain a as where a: "from_dict i d = Inr a" and as: "from_dicts (Suc i) ds = Inr as"
    and aps: "aps = a # as"
    by (auto split: sum.splits)
  have u: "[i..<i + length (d # ds)] = i # [Suc i..<Suc i + length ds]"
    by (subst upt_rec) simp
  from Cons.IH [OF as] have m: "map oid as = [Suc i..<Suc i + length ds]"
    and t: "\<forall>a \<in> set as. titolo a = strip (titolo a)" by blast+
  from from_dict_props [OF a] have h: "oid a = i" "titolo a = strip (titolo a)" by blast+
  have "map oid aps = [i..<i + length (d # ds)]"
    unfolding u aps using m h(1) by (simp only: list.map)
  moreover have "\<forall>a \<in> set aps. titolo a = strip (titolo a)"
    using t h(2) aps by auto
  ultimately show ?case by blast
qed

lemma load_cases:
  "load s = s \<or> (\<exists>e. load s = s\<lparr>dialogs := dialogs s @ [Showwarning e]\<rparr>)
   \<or> (\<exists>ds aps. from_dicts (next_oid s) ds = Inr aps
        \<and> load s = s\<lparr>appuntamenti := aps, next_oid := next_oid s + length ds\<rparr>)"
  by (auto simp: load_def split: option.splits file_state.splits sum.splits)

lemma gestore_init_inv: "list_inv (snd (gestore_init fs today))"
proof -
  let ?s = "new_gestore fs today"
  have "distinct (map oid (appuntamenti (load ?s))) \<and>
        (\<forall>a \<in> set (appuntamenti (load ?s)). oid a < next_oid (load ?s) \<and> titolo a = strip (titolo a))"
  proof -
    consider "load ?s = ?s" | e where "load ?s = ?s\<lparr>dialogs := dialogs ?s @ [Showwarning e]\<rparr>"
      | ds aps where "from_dicts (next_oid ?s) ds = Inr aps"
          "load ?s = ?s\<lparr>appuntamenti := aps, next_oid := next_oid ?s + length ds\<rparr>"
      using load_cases [of ?s] by blast
    then show ?thesis
    proof cases
      case 1
      then show ?thesis by (simp add: new_gestore_def)
    next
      case 2
      then show ?thesis by (simp add: new_gestore_def)
    next
      case 3
      from from_dicts_props [OF 3(1)] have m: "map oid aps = [next_oid ?s..<next_oid ?s + length ds]"
        and t: "\<forall>a \<in> set aps. titolo a = strip (titolo a)" by simp_all
      have "distinct (map oid aps)" by (simp add: m)
      moreover have "\<forall>a \<in> set aps. oid a < next_oid ?s + length ds"
      proof
        fix a assume "a \<in> set aps"
        then have "oid a \<in> set (map oid aps)" by simp
        then show "oid a < next_oid ?s + length ds" by (simp add: m)
      qed
      ultimately show ?thesis using t by (simp add: 3(2))
    qed
  qed
  then show ?thesis
    unfolding gestore_init_def
    using refresh_list_appuntamenti [of "load ?s"]
    by (intro list_inv_sort [where xs = "appuntamenti (load ?s)" and n = "next_oid (load ?s)"]) simp_all
qed

lemma add_appointment_inv:
  assumes "list_inv s"
  shows "list_inv (snd (add_appointment yes w s))"
proof -
  let ?s' = "snd (add_appointment yes w s)"
  from add_appointment_cases [of yes w s]
  consider "appuntamenti ?s' = appuntamenti s" "next_oid s \<le> next_oid ?s'"
    | ap where "fst (parse_form s) = Inr (Some ap)"
        "appuntamenti ?s' = sort_key (\<lambda>a. dt_key (data_ora a)) (appuntamenti s @ [ap])"
        "next_oid ?s' = Suc (next_oid s)"
    by blast
  then show ?thesis
  proof cases
    case 1
    then show ?thesis using assms by (fastforce simp: list_inv_def)
  next
    case 2
    from parse_form_Some [OF 2(1)] have ap: "oid ap = next_oid s" "titolo ap = strip (ent_title s)"
      by simp_all
    have "distinct (map oid (appuntamenti s @ [ap]))"
      using assms ap(1) by (auto simp: list_inv_def)
    moreover have "\<forall>a \<in> set (appuntamenti s @ [ap]). oid a < Suc (next_oid s) \<and> titolo a = strip (titolo a)"
      using assms ap by (auto simp: list_inv_def strip_idem less_Suc_eq)
    ultimately show ?thesis
      using 2(2,3) by (rule list_inv_sort)
  qed
qed

lemma delete_selected_inv:
  assumes "list_inv s"
  shows "list_inv (snd (delete_selected sel yes w s))"
proof -
  let ?s' = "snd (delete_selected sel yes w s)"
  from delete_selected_cases [of sel yes w s]
  have n: "next_oid ?s' = next_oid s" by simp
  from delete_selected_cases [of sel yes w s]
  consider "appuntamenti ?s' = appuntamenti s"
    | idx where "appuntamenti ?s' =
        sort_key (\<lambda>a. dt_key (data_ora a)) (take idx (appuntamenti s) @ drop (Suc idx) (appuntamenti s))"
    by blast
  then show ?thesis
  proof cases
    case 1
    then show ?thesis using assms n by (simp add: list_inv_def)
  next
    case 2
    have "distinct (map oid (take idx (appuntamenti s) @ drop (Suc idx) (appuntamenti s)))"
      using assms by (intro distinct_oid_delete) (simp add: list_inv_def)
    moreover have "\<forall>a \<in> set (take idx (appuntamenti s) @ drop (Suc idx) (appuntamenti s)).
        oid a < next_oid s \<and> titolo a = strip (titolo a)"
      using assms set_delete_subset [of idx "appuntamenti s"] by (auto simp: list_inv_def)
    ultimately show ?thesis
      using 2 n by (rule list_inv_sort)
  qed
qed

lemma reachable_list_inv: "reachable s \<Longrightarrow> list_inv s"
proof (induction rule: reachable.induct)
  case (constructed fs today)
  show ?case by (rule gestore_init_inv)
next
  case (filled s t d tm du)
  then show ?case by (simp add: list_inv_def)
next
  case (added s yes w)
  from added.IH show ?case by (rule add_appointment_inv)
next
  case (deleted s sel yes w)
  from deleted.IH show ?case by (rule delete_selected_inv)
next
  case (closed s w)
  then show ?case using save_frame [of w s] by (simp add: list_inv_def on_close_def)
qed

lemma Appuntamento_init_stripped:
  "Appuntamento_init i t d n = Inr a \<Longrightarrow> titolo a = strip (titolo a)"
  by (auto simp: Appuntamento_init_def py_strip_def strip_idem split: sum.splits pyval.splits)

lemma ex_loaded_eq:
  "gestore_init (Some (Readable (PList [ex_record]))) ex_date =
     (None, \<lparr>appuntamenti = [ex_ap 0 ''Dentist'' 9 0 30], lst = [(''Dentist'', ''15/03 09:00'', ''09:30'', 30)],
        status = Pronto, ent_title = [], cal_date = ex_date, cmb_time = [], ent_duration = [], dialogs = [],
        disk = Some (Readable (PList [ex_record])), next_oid = 1\<rparr>)"
  by code_simp

lemma reachable_ex_loaded: "reachable ex_loaded"
  unfolding ex_loaded_def by (rule reachable.constructed) (simp add: ex_loaded_eq)

lemma ex_empty_eq:
  "gestore_init None ex_date =
     (None, \<lparr>appuntamenti = [], lst = [], status = Pronto, ent_title = [], cal_date = ex_date,
        cmb_time = [], ent_duration = [], dialogs = [], disk = None, next_oid = 0\<rparr>)"
  by code_simp

lemma reachable_ex_empty: "reachable ex_empty"
  unfolding ex_empty_def by (rule reachable.constructed) (simp add: ex_empty_eq)

lemma append_all_Cons: "append_all (x # xs) s = append_all xs (snd (append_appointment x Write_ok s))"
  by (simp add: append_all_def)

lemma mset_append_all: "mset (appuntamenti (append_all xs s)) = mset (appuntamenti s) + mset xs"
proof (induction xs arbitrary: s)
  case Nil
  show ?case by (simp add: append_all_def)
next
  case (Cons x xs)
  show ?case
    by (simp add: append_all_Cons Cons.IH append_appointment_appuntamenti)
qed

lemma sorted_append_all:
  "sorted_by_start (appuntamenti s) \<Longrightarrow> sorted_by_start (appuntamenti (append_all xs s))"
proof (induction xs arbitrary: s)
  case Nil
  then show ?case by (simp add: append_all_def)
next
  case (Cons x xs)
  have "sorted_by_start (appuntamenti (snd (append_appointment x Write_ok s)))"
    by (simp add: append_appointment_appuntamenti sorted_by_start_def)
  from Cons.IH [OF this] show ?case by (simp add: append_all_Cons)
qed

lemma len3: "length l = 3 \<Longrightarrow> \<exists>x y z. l = [x, y, z]"
  by (auto simp: length_Suc_conv numeral_eq_Suc)

lemma sorted_three_unique:
  fixes k :: "'a \<Rightarrow> 'b::linorder"
  assumes "sorted (map k l)" and "mset l = {#a, b, c#}" and "k a < k b" and "k b < k c"
  shows "l = [a, b, c]"
proof -
  from assms(2) have e: "mset l = mset [a, b, c]" by simp
  then have "mset (map k l) = mset (map k [a, b, c])"
    by (simp only: mset_map)
  then have "sort (map k [a, b, c]) = map k l"
    using assms(1) by (rule properties_for_sort)
  moreover have "sorted (map k [a, b, c])"
    using assms(3,4) by auto
  then have "sort (map k [a, b, c]) = map k [a, b, c]"
    by (rule sorted_sort_id)
  ultimately have m: "map k l = [k a, k b, k c]" by simp
  then have "length l = 3" using length_map [of k l] by simp
  then obtain x y z where l: "l = [x, y, z]"
    using len3 by blast
  with m have kx: "k x = k a" "k y = k b" "k z = k c" by simp_all
  from e have "set l = set [a, b, c]" by (rule mset_eq_setD)
  then have s: "set [x, y, z] = set [a, b, c]" using l by simp
  have "x \<in> set [x, y, z]" "y \<in> set [x, y, z]" "z \<in> set [x, y, z]" by simp_all
  then have i: "x \<in> set [a, b, c]" "y \<in> set [a, b, c]" "z \<in> set [a, b, c]"
    unfolding s by blast+
  have "x = a" using i(1) kx(1) assms(3,4) by auto
  moreover have "y = b" using i(2) kx(2) assms(3,4) by auto
  moreover have "z = c" using i(3) kx(3) assms(3,4) by auto
  ultimately show ?thesis using l by simp
qed

lemma ex_three_eq:
  "appuntamenti ex_three = [ex_ap 1 ''B'' 8 0 30, ex_ap 2 ''C'' 9 0 30, ex_ap 0 ''A'' 10 0 30]"
  by code_simp

lemma reachable_ex_three: "reachable ex_three"
  unfolding ex_three_def ex_fill_def
  by (intro reachable.added reachable.filled reachable_ex_empty)

lemma nth_not_in_delete:
  assumes "distinct xs" and "i < length xs"
  shows "xs ! i \<notin> set (take i xs @ drop (Suc i) xs)"
proof -
  have "distinct (take i xs @ xs ! i # drop (Suc i) xs)"
    using assms by (simp add: id_take_nth_drop [symmetric])
  then show ?thesis by auto
qed

lemma mset_delete:
  assumes "i < length xs"
  shows "mset (take i xs @ drop (Suc i) xs) = mset xs - {#xs ! i#}"
proof -
  have "mset xs = mset (take i xs @ xs ! i # drop (Suc i) xs)"
    using assms by (simp add: id_take_nth_drop [symmetric])
  then show ?thesis by simp
qed

lemma delete_selected_confirmed:
  assumes "idx < length (appuntamenti s)"
  shows "appuntamenti (snd (delete_selected (idx # rest) True w s)) =
           sort_key (\<lambda>a. dt_key (data_ora a)) (take idx (appuntamenti s) @ drop (Suc idx) (appuntamenti s))"
  using assms
    refresh_list_appuntamenti [of "s\<lparr>dialogs := dialogs s @ [Ask_cancellare (titolo (appuntamenti s ! idx))],
      appuntamenti := take idx (appuntamenti s) @ drop (Suc idx) (appuntamenti s)\<rparr>"]
  by (auto simp: delete_selected_def Let_def save_frame split: prod.splits option.splits)

lemma py_int_convertible: "(\<exists>n. py_int x = Inr n) \<longleftrightarrow> int_convertible x"
  by (auto simp: py_int_def int_convertible_def split: pyval.splits pyfloat.splits sum.splits)

lemma py_int_PInt: "py_int (PInt n) = Inr n"
  by (simp add: py_int_def)

lemma spec_record_ok_accepted_lib:
  "spec_record_ok d \<Longrightarrow> record_accepted_lib py_fromisoformat py_int d"
proof -
  assume a: "spec_record_ok d"
  then obtain kvs where d: "d = PDict kvs"
    by (cases d) (simp_all add: spec_record_ok_def)
  from a d obtain t where t: "map_of kvs ''titolo'' = Some t"
    by (cases "map_of kvs ''titolo''") (simp_all add: spec_record_ok_def)
  from a d t obtain ts where ts: "t = PStr ts"
    by (cases t) (simp_all add: spec_record_ok_def)
  from a d t ts obtain ds where ds: "map_of kvs ''data_ora'' = Some ds"
    by (cases "map_of kvs ''data_ora''") (simp_all add: spec_record_ok_def)
  from a d t ts ds obtain dss where dss: "ds = PStr dss"
    by (cases ds) (simp_all add: spec_record_ok_def)
  from a d t ts ds dss obtain du where du: "map_of kvs ''durata'' = Some du"
    by (cases "map_of kvs ''durata''") (simp_all add: spec_record_ok_def)
  from a d t ts ds dss du obtain n where n: "du = PInt n"
    by (cases du) (simp_all add: spec_record_ok_def)
  from a d t ts ds dss du n obtain start where s: "fromisoformat dss = Inr start"
    by (cases "fromisoformat dss") (simp_all add: spec_record_ok_def)
  show ?thesis
    by (simp add: record_accepted_lib_def d t ts ds dss du n s py_fromisoformat_def py_int_PInt)
qed

lemma digit_char_facts:
  assumes "d < 10"
  shows "\<not> is_space (digit_char d)" "digit_char d \<noteq> CHR '':''" "digit_char d \<noteq> CHR ''-''"
    "digit_char d \<noteq> CHR ''+''" "\<not> is_int_space (digit_char d)"
  using less_10_cases [OF assms] by (auto simp: digit_char_def is_space_def is_int_space_def)

lemma fmt_d_2:
  assumes "0 \<le> k" and "k < 100"
  shows "fmt_d 2 k = [digit_char (nat k div 10), digit_char (nat k mod 10)]"
proof (cases "nat k < 10")
  case True
  then have "show_nat (nat k) = [digit_char (nat k)]"
    by (subst show_nat.simps) simp
  with True assms show ?thesis
    by (simp add: fmt_d_def zfill_def digit_char_def)
next
  case False
  with assms have "nat k div 10 < 10" by simp
  then have "show_nat (nat k div 10) = [digit_char (nat k div 10)]"
    by (subst show_nat.simps) simp
  with False have "show_nat (nat k) = [digit_char (nat k div 10), digit_char (nat k mod 10)]"
    by (subst show_nat.simps) simp
  with assms show ?thesis
    by (simp add: fmt_d_def zfill_def)
qed

lemma int_of_str_2digits:
  assumes "a < 10" and "b < 10"
  shows "int_of_str [digit_char a, digit_char b] = Inr (int (a * 10 + b))"
  using assms
  by (simp add: int_of_str_def int_strip_def digit_char_facts
      is_digit_digit_char digit_val_digit_char)

lemma split_on_slot:
  assumes "a < 10" "b < 10" "c < 10" "e < 10"
  shows "split_on (CHR '':'') [digit_char a, digit_char b, CHR '':'', digit_char c, digit_char e]
         = [[digit_char a, digit_char b], [digit_char c, digit_char e]]"
  using assms by (simp add: digit_char_facts)

lemma strip_slot:
  assumes "a < 10" "b < 10" "c < 10" "e < 10"
  shows "strip [digit_char a, digit_char b, CHR '':'', digit_char c, digit_char e]
         = [digit_char a, digit_char b, CHR '':'', digit_char c, digit_char e]"
  using assms by (simp add: strip_def lstrip_def rstrip_def digit_char_facts)

lemma parse_start_slot:
  assumes "0 \<le> h" "h < 24" "0 \<le> m" "m < 60" "valid_date d"
  shows "strip (fmt_d 2 h @ '':'' @ fmt_d 2 m) = fmt_d 2 h @ '':'' @ fmt_d 2 m
       \<and> fmt_d 2 h @ '':'' @ fmt_d 2 m \<noteq> []
       \<and> parse_start d (fmt_d 2 h @ '':'' @ fmt_d 2 m)
           = Inr \<lparr>year = year d, month = month d, day = day d, hour = h, minute = m, second = 0, microsecond = 0\<rparr>"
proof -
  let ?a = "nat h div 10" and ?b = "nat h mod 10" and ?c = "nat m div 10" and ?e = "nat m mod 10"
  have l: "?a < 10" "?b < 10" "?c < 10" "?e < 10"
    using assms(1-4) by simp_all
  have t: "fmt_d 2 h @ '':'' @ fmt_d 2 m = [digit_char ?a, digit_char ?b, CHR '':'', digit_char ?c, digit_char ?e]"
    using assms(1-4) by (simp add: fmt_d_2)
  have hh: "int (?a * 10 + ?b) = h" and mm: "int (?c * 10 + ?e) = m"
    using assms(1-4) by simp_all
  have "parse_start d [digit_char ?a, digit_char ?b, CHR '':'', digit_char ?c, digit_char ?e]
      = datetime_new (year d) (month d) (day d) h m 0 0"
    unfolding parse_start_def split_on_slot [OF l]
    by (simp only: int_of_str_2digits [OF l(1,2)] int_of_str_2digits [OF l(3,4)] hh mm
        list.case sum.case)
  moreover have "datetime_new (year d) (month d) (day d) h m 0 0
      = Inr \<lparr>year = year d, month = month d, day = day d, hour = h, minute = m, second = 0, microsecond = 0\<rparr>"
    using assms by (simp add: datetime_new_def valid_date_def check_time_fields_def)
  ultimately show ?thesis
    unfolding t using strip_slot [OF l] by simp
qed

lemma cmb_time_values_D:
  assumes "t \<in> set cmb_time_values"
  shows "\<exists>h m. 0 \<le> h \<and> h < 24 \<and> 0 \<le> m \<and> m < 60 \<and> t = fmt_d 2 h @ '':'' @ fmt_d 2 m"
proof -
  from assms obtain x xb :: nat where "x < 24" "xb < 60" "t = fmt_d 2 (int x) @ '':'' @ fmt_d 2 (int xb)"
    by (auto simp: cmb_time_values_def time_slots_def)
  then have "0 \<le> int x \<and> int x < 24 \<and> 0 \<le> int xb \<and> int xb < 60
      \<and> t = fmt_d 2 (int x) @ '':'' @ fmt_d 2 (int xb)"
    by simp
  then show ?thesis by blast
qed

lemma strip_Nil: "strip [] = []"
  by (simp add: strip_def lstrip_def rstrip_def)

lemma int_of_str_Nil: "int_of_str [] = Inl ValueError"
  by (simp add: int_of_str_def int_strip_def)

lemma int_of_str_ValueError: "int_of_str x = Inl e \<Longrightarrow> e = ValueError"
  by (auto simp: int_of_str_def split: list.splits if_splits option.splits)

lemma parse_form_fails_iff:
  assumes "cmb_time s \<in> set cmb_time_values" and "valid_date (cal_date s)"
  shows "fst (parse_form s) = Inr None \<longleftrightarrow> strip (ent_title s) = [] \<or> \<not> duration_ok (ent_duration s)"
proof -
  from cmb_time_values_D [OF assms(1)] obtain h m where
    hm: "0 \<le> h" "h < 24" "0 \<le> m" "m < 60" "cmb_time s = fmt_d 2 h @ '':'' @ fmt_d 2 m"
    by blast
  note p = parse_start_slot [OF hm(1-4) assms(2)]
  have tm: "strip (cmb_time s) \<noteq> []" "\<exists>start. parse_start (cal_date s) (strip (cmb_time s)) = Inr start"
    using p by (simp_all add: hm(5))
  then obtain start where start: "parse_start (cal_date s) (strip (cmb_time s)) = Inr start"
    by blast
  show ?thesis
  proof (cases "int_of_str (strip (ent_duration s))")
    case (Inl e)
    then have "int_of_str (strip (ent_duration s)) = Inl ValueError"
      using int_of_str_ValueError [of "strip (ent_duration s)" e] by simp
    then show ?thesis
      by (simp add: parse_form_def Let_def duration_ok_def)
  next
    case (Inr n)
    then have i: "int_of_str (strip (ent_duration s)) = Inr n"
      by simp
    then have ne: "strip (ent_duration s) \<noteq> []"
      by (auto simp: int_of_str_Nil)
    show ?thesis
      using i ne tm(1) start
      by (simp add: parse_form_def Let_def duration_ok_def Appuntamento_init_def py_strip_def py_int_PInt)
  qed
qed

lemma parse_form_error_box:
  assumes "fst (parse_form s) = Inr None"
  shows "\<exists>msg. snd (parse_form s) = s\<lparr>dialogs := dialogs s @ [Showerror msg]\<rparr>"
proof (cases "strip (ent_title s) = [] \<or> strip (cmb_time s) = [] \<or> strip (ent_duration s) = []")
  case True
  then have "snd (parse_form s) = s\<lparr>dialogs := dialogs s @ [Showerror ''Compila tutti i campi!'']\<rparr>"
    by (simp add: parse_form_def Let_def)
  then show ?thesis by blast
next
  case False
  show ?thesis
  proof (cases "int_of_str (strip (ent_duration s))")
    case (Inl e)
    then have "e = ValueError" by (rule int_of_str_ValueError)
    with Inl False
    have "snd (parse_form s) = s\<lparr>dialogs := dialogs s @ [Showerror ''La durata deve essere un intero positivo.'']\<rparr>"
      by (simp add: parse_form_def Let_def)
    then show ?thesis by blast
  next
    case (Inr n)
    show ?thesis
    proof (cases "n \<le> 0")
      case True
      with Inr False
      have "snd (parse_form s) = s\<lparr>dialogs := dialogs s @ [Showerror ''La durata deve essere un intero positivo.'']\<rparr>"
        by (simp add: parse_form_def Let_def)
      then show ?thesis by blast
    next
      case pos: False
      show ?thesis
      proof (cases "parse_start (cal_date s) (strip (cmb_time s))")
        case (Inl e)
        with Inr False pos
        have "snd (parse_form s) = s\<lparr>dialogs := dialogs s @ [Showerror ''Formato data/ora non valido.'']\<rparr>"
          by (simp add: parse_form_def Let_def)
        then show ?thesis by blast
      next
        case start: (Inr start)
        with Inr False pos have "fst (parse_form s) \<noteq> Inr None"
          by (simp add: parse_form_def Let_def Appuntamento_init_def py_strip_def py_int_PInt)
        with assms show ?thesis by simp
      qed
    qed
  qed
qed

lemma parse_form_ok:
  assumes "cmb_time s \<in> set cmb_time_values" and "valid_date (cal_date s)"
    and "strip (ent_title s) \<noteq> []" and "duration_ok (ent_duration s)"
  shows "\<exists>ap. parse_form s = (Inr (Some ap), s\<lparr>next_oid := Suc (next_oid s)\<rparr>)
           \<and> titolo ap = strip (ent_title s)
           \<and> int_of_str (strip (ent_duration s)) = Inr (durata ap) \<and> 0 < durata ap
           \<and> valid_datetime (data_ora ap)"
proof -
  from cmb_time_values_D [OF assms(1)] obtain h m where
    hm: "0 \<le> h" "h < 24" "0 \<le> m" "m < 60" "cmb_time s = fmt_d 2 h @ '':'' @ fmt_d 2 m"
    by blast
  let ?start = "\<lparr>year = year (cal_date s), month = month (cal_date s), day = day (cal_date s),
      hour = h, minute = m, second = 0, microsecond = 0\<rparr>"
  note p = parse_start_slot [OF hm(1-4) assms(2)]
  have tm: "strip (cmb_time s) \<noteq> []" "parse_start (cal_date s) (strip (cmb_time s)) = Inr ?start"
    using p by (simp_all add: hm(5))
  have v: "valid_datetime ?start"
    using assms(2) hm(1-4) by (simp add: valid_datetime_def valid_date_def check_time_fields_def)
  from assms(4) obtain n where n: "int_of_str (strip (ent_duration s)) = Inr n" "0 < n"
    by (cases "int_of_str (strip (ent_duration s))") (simp_all add: duration_ok_def)
  then have i: "int_of_str (strip (ent_duration s)) = Inr n"
    by simp
  then have ne: "strip (ent_duration s) \<noteq> []"
    by (auto simp: int_of_str_Nil)
  let ?ap = "\<lparr>oid = next_oid s, titolo = strip (ent_title s), data_ora = ?start, durata = n\<rparr>"
  have "parse_form s = (Inr (Some ?ap), s\<lparr>next_oid := Suc (next_oid s)\<rparr>)"
    using assms(3) i n(2) ne tm
    by (simp add: parse_form_def Let_def Appuntamento_init_def py_strip_def py_int_PInt strip_idem)
  moreover have "titolo ?ap = strip (ent_title s)" "int_of_str (strip (ent_duration s)) = Inr (durata ?ap)"
    "0 < durata ?ap" "valid_datetime (data_ora ?ap)"
    using n v by simp_all
  ultimately show ?thesis by blast
qed

lemma ex_slot: "''09:00'' \<in> set cmb_time_values"
  by code_simp

lemma valid_ex_date: "valid_date ex_date"
  by (simp add: valid_date_def ex_date_def check_date_fields_def MINYEAR_def MAXYEAR_def
      days_in_month_def DAYS_IN_MONTH_def)

lemma ex_fill_fields:
  "cmb_time (ex_fill t tm du s) = tm" "cal_date (ex_fill t tm du s) = ex_date"
  "ent_title (ex_fill t tm du s) = t" "ent_duration (ex_fill t tm du s) = du"
  by (simp_all add: ex_fill_def)

lemma record_accepted_lib_D:
  assumes "record_accepted_lib fromiso to_int d"
  shows "\<exists>kvs ts ds du start n. d = PDict kvs \<and> map_of kvs ''titolo'' = Some (PStr ts)
     \<and> map_of kvs ''data_ora'' = Some ds \<and> map_of kvs ''durata'' = Some du
     \<and> fromiso ds = Inr start \<and> to_int du = Inr n"
proof -
  from assms obtain kvs where d: "d = PDict kvs"
    by (cases d) (simp_all add: record_accepted_lib_def)
  from assms d obtain t where t: "map_of kvs ''titolo'' = Some t"
    by (cases "map_of kvs ''titolo''") (simp_all add: record_accepted_lib_def)
  from assms d t obtain ts where ts: "t = PStr ts"
    by (cases t) (simp_all add: record_accepted_lib_def)
  from assms d t ts obtain ds where ds: "map_of kvs ''data_ora'' = Some ds"
    by (cases "map_of kvs ''data_ora''") (simp_all add: record_accepted_lib_def)
  from assms d t ts ds obtain du where du: "map_of kvs ''durata'' = Some du"
    by (cases "map_of kvs ''durata''") (simp_all add: record_accepted_lib_def)
  from assms d t ts ds du obtain start where s: "fromiso ds = Inr start"
    by (cases "fromiso ds") (simp_all add: record_accepted_lib_def)
  from assms d t ts ds du s obtain n where n: "to_int du = Inr n"
    by (cases "to_int du") (simp_all add: record_accepted_lib_def)
  from d t ts ds du s n show ?thesis by blast
qed

lemma from_dict_lib_Inr_D:
  assumes "from_dict_lib fromiso to_int i d = Inr a"
  shows "\<exists>kvs ts ds du start n. d = PDict kvs \<and> map_of kvs ''titolo'' = Some (PStr ts)
     \<and> map_of kvs ''data_ora'' = Some ds \<and> map_of kvs ''durata'' = Some du
     \<and> fromiso ds = Inr start \<and> to_int du = Inr n
     \<and> a = \<lparr>oid = i, titolo = strip ts, data_ora = start, durata = n\<rparr>"
proof -
  from assms obtain kvs where d: "d = PDict kvs"
    by (cases d) (simp_all add: from_dict_lib_def getitem_def)
  from assms d obtain t where t: "map_of kvs ''titolo'' = Some t"
    by (cases "map_of kvs ''titolo''") (simp_all add: from_dict_lib_def getitem_def)
  from assms d t obtain ds where ds: "map_of kvs ''data_ora'' = Some ds"
    by (cases "map_of kvs ''data_ora''") (simp_all add: from_dict_lib_def getitem_def)
  from assms d t ds obtain start where s: "fromiso ds = Inr start"
    by (cases "fromiso ds") (simp_all add: from_dict_lib_def getitem_def)
  from assms d t ds s obtain du where du: "map_of kvs ''durata'' = Some du"
    by (cases "map_of kvs ''durata''") (simp_all add: from_dict_lib_def getitem_def)
  from assms d t ds s du obtain n where n: "to_int du = Inr n"
    by (cases "to_int du") (simp_all add: from_dict_lib_def getitem_def)
  from assms d t ds s du n have i: "Appuntamento_init i t start (PInt n) = Inr a"
    by (simp add: from_dict_lib_def getitem_def)
  then obtain ts where ts: "t = PStr ts"
    by (cases t) (simp_all add: Appuntamento_init_def py_strip_def)
  with i have "a = \<lparr>oid = i, titolo = strip ts, data_ora = start, durata = n\<rparr>"
    by (simp add: Appuntamento_init_def py_strip_def py_int_PInt)
  with d t ts ds du s n show ?thesis by blast
qed

lemma from_dict_lib_Inr_iff:
  "(\<exists>a. from_dict_lib fromiso to_int i d = Inr a) \<longleftrightarrow> record_accepted_lib fromiso to_int d"
proof
  assume "\<exists>a. from_dict_lib fromiso to_int i d = Inr a"
  then obtain a where "from_dict_lib fromiso to_int i d = Inr a" ..
  from from_dict_lib_Inr_D [OF this] obtain kvs ts ds du start n where
    f: "d = PDict kvs" "map_of kvs ''titolo'' = Some (PStr ts)" "map_of kvs ''data_ora'' = Some ds"
       "map_of kvs ''durata'' = Some du" "fromiso ds = Inr start" "to_int du = Inr n"
    by blast
  then show "record_accepted_lib fromiso to_int d"
    by (simp add: record_accepted_lib_def)
next
  assume "record_accepted_lib fromiso to_int d"
  from record_accepted_lib_D [OF this] obtain kvs ts ds du start n where
    f: "d = PDict kvs" "map_of kvs ''titolo'' = Some (PStr ts)" "map_of kvs ''data_ora'' = Some ds"
       "map_of kvs ''durata'' = Some du" "fromiso ds = Inr start" "to_int du = Inr n"
    by blast
  then show "\<exists>a. from_dict_lib fromiso to_int i d = Inr a"
    by (simp add: from_dict_lib_def getitem_def Appuntamento_init_def py_strip_def py_int_PInt)
qed

lemma from_dict_lib_Inl_iff:
  "(\<exists>e. from_dict_lib fromiso to_int i d = Inl e) \<longleftrightarrow> \<not> record_accepted_lib fromiso to_int d"
proof -
  have "(\<exists>e. from_dict_lib fromiso to_int i d = Inl e) \<longleftrightarrow> \<not> (\<exists>a. from_dict_lib fromiso to_int i d = Inr a)"
    by (cases "from_dict_lib fromiso to_int i d") auto
  then show ?thesis by (simp add: from_dict_lib_Inr_iff)
qed

lemma find_overlap_find:
  assumes "has_end new_ap" and "\<forall>a \<in> set aps. has_end a"
  shows "find_overlap aps new_ap = Inr (List.find (spec_overlaps new_ap) aps)"
  using assms(2)
proof (induction aps)
  case Nil
  show ?case by simp
next
  case (Cons a aps)
  from assms(1) obtain e1 where e1: "fine new_ap = Inr e1"
    by (cases "fine new_ap") (simp_all add: has_end_def)
  from Cons.prems obtain e2 where e2: "fine a = Inr e2"
    by (cases "fine a") (simp_all add: has_end_def)
  from Cons have ih: "find_overlap aps new_ap = Inr (List.find (spec_overlaps new_ap) aps)"
    by simp
  have o: "spec_overlaps new_ap a \<longleftrightarrow> dt_less (data_ora new_ap) e2 \<and> dt_less (data_ora a) e1"
    by (simp add: spec_overlaps_def e1 e2 half_open_overlap_def)
  show ?case
    by (simp add: e1 e2 ih o)
qed

lemma find_overlap_oid: "find_overlap aps (new_ap\<lparr>oid := k\<rparr>) = find_overlap aps new_ap"
  by (induction aps) (auto simp: fine_oid split: sum.splits)

lemma find_Some_mem: "List.find P xs = Some x \<Longrightarrow> x \<in> set xs \<and> P x"
  by (induction xs) (auto split: if_splits)

lemma has_end_ex:
  "has_end (ex_ap i t 9 0 60)" "has_end (ex_ap i t 9 30 60)" "has_end (ex_ap i t 10 0 60)"
  "has_end (ex_ap i t 8 0 60)"
  by (simp_all add: has_end_def fine_ex_ap_9_60 fine_ex_ap_930_60 fine_ex_ap_10_60 fine_ex_ap_8_60)

lemma parse_form_Some_state:
  assumes "fst (parse_form s) = Inr (Some ap)"
  shows "snd (parse_form s) = s\<lparr>next_oid := Suc (next_oid s)\<rparr>"
proof (cases "strip (ent_title s) = [] \<or> strip (cmb_time s) = [] \<or> strip (ent_duration s) = []")
  case True
  with assms show ?thesis by (simp add: parse_form_def Let_def)
next
  case False
  show ?thesis
  proof (cases "int_of_str (strip (ent_duration s))")
    case (Inl e)
    with assms False show ?thesis by (simp add: parse_form_def Let_def split: if_splits)
  next
    case (Inr n)
    show ?thesis
    proof (cases "n \<le> 0")
      case True
      with assms False Inr show ?thesis by (simp add: parse_form_def Let_def)
    next
      case pos: False
      show ?thesis
      proof (cases "parse_start (cal_date s) (strip (cmb_time s))")
        case (Inl e)
        with assms False Inr pos show ?thesis by (simp add: parse_form_def Let_def)
      next
        case start: (Inr start)
        with False Inr pos show ?thesis
          by (simp add: parse_form_def Let_def Appuntamento_init_def py_strip_def py_int_PInt)
      qed
    qed
  qed
qed

lemma parse_form_Some_intro:
  assumes "strip (ent_title s) \<noteq> []" "strip (cmb_time s) \<noteq> []" "strip (ent_duration s) \<noteq> []"
    and "int_of_str (strip (ent_duration s)) = Inr n" and "0 < n"
    and "parse_start (cal_date s) (strip (cmb_time s)) = Inr start"
  shows "fst (parse_form s) = Inr (Some \<lparr>oid = next_oid s, titolo = strip (ent_title s), data_ora = start, durata = n\<rparr>)"
  using assms
  by (simp add: parse_form_def Let_def Appuntamento_init_def py_strip_def py_int_PInt strip_idem)

lemma parse_form_Some_fields:
  assumes "fst (parse_form s) = Inr (Some ap)"
  shows "strip (ent_title s) \<noteq> [] \<and> strip (cmb_time s) \<noteq> [] \<and> strip (ent_duration s) \<noteq> []"
proof (rule ccontr)
  assume "\<not> ?thesis"
  then have "fst (parse_form s) = Inr None"
    by (auto simp: parse_form_def Let_def)
  with assms show False by simp
qed

lemma parse_form_same_form:
  assumes "ent_title s' = ent_title s" "cmb_time s' = cmb_time s" "ent_duration s' = ent_duration s"
    "cal_date s' = cal_date s" and "fst (parse_form s) = Inr (Some ap)"
  shows "fst (parse_form s') = Inr (Some (ap\<lparr>oid := next_oid s'\<rparr>))"
proof -
  note p = parse_form_Some [OF assms(5)]
  note f = parse_form_Some_fields [OF assms(5)]
  have "fst (parse_form s') = Inr (Some \<lparr>oid = next_oid s', titolo = strip (ent_title s'),
      data_ora = data_ora ap, durata = durata ap\<rparr>)"
    using p f by (intro parse_form_Some_intro) (simp_all add: assms(1-4))
  moreover have "ap\<lparr>oid := next_oid s'\<rparr> = \<lparr>oid = next_oid s', titolo = strip (ent_title s'),
      data_ora = data_ora ap, durata = durata ap\<rparr>"
    using p by (simp add: assms(1))
  ultimately show ?thesis by simp
qed

lemma find_Some_split:
  "List.find P xs = Some c \<Longrightarrow> \<exists>pre post. xs = pre @ c # post \<and> P c \<and> (\<forall>x \<in> set pre. \<not> P x)"
proof (induction xs)
  case Nil
  then show ?case by simp
next
  case (Cons a xs)
  show ?case
  proof (cases "P a")
    case True
    with Cons.prems have "a = c" by simp
    with True have "a # xs = [] @ c # xs \<and> P c \<and> (\<forall>x \<in> set []. \<not> P x)" by simp
    then show ?thesis by blast
  next
    case False
    with Cons.prems have "List.find P xs = Some c" by simp
    with Cons.IH obtain pre post where "xs = pre @ c # post" "P c" "\<forall>x \<in> set pre. \<not> P x"
      by blast
    with False have "a # xs = (a # pre) @ c # post \<and> P c \<and> (\<forall>x \<in> set (a # pre). \<not> P x)"
      by simp
    then show ?thesis by blast
  qed
qed

lemma append_appointment_dialogs:
  "dialogs (snd (append_appointment ap w s)) = dialogs s"
proof (cases "refresh_list (s\<lparr>appuntamenti := appuntamenti s @ [ap]\<rparr>)")
  case (Pair r s')
  then have d: "dialogs s' = dialogs s"
    by (auto simp: refresh_list_def Let_def split: prod.splits)
  show ?thesis
  proof (cases r)
    case None
    with Pair d show ?thesis
      by (cases w) (simp_all add: append_appointment_def save_def clear_form_def Let_def)
  next
    case (Some e)
    with Pair d show ?thesis by (simp add: append_appointment_def)
  qed
qed

lemma add_appointment_declined:
  assumes "fst (parse_form s) = Inr (Some ap)" and "find_overlap (appuntamenti s) ap = Inr (Some c)"
  shows "add_appointment False w s =
     (None, s\<lparr>next_oid := Suc (next_oid s),
              dialogs := dialogs s @ [Ask_sovrapposizione (titolo c) (strftime_dm_HM (data_ora c))],
              status := Aggiunta_annullata\<rparr>)"
proof -
  from assms(1) have p: "parse_form s = (Inr (Some ap), s\<lparr>next_oid := Suc (next_oid s)\<rparr>)"
    using parse_form_Some_state [OF assms(1)] by (cases "parse_form s") simp
  show ?thesis
    by (simp add: add_appointment_def p assms(2) Let_def)
qed

lemma add_appointment_forced:
  assumes "fst (parse_form s) = Inr (Some ap)" and "find_overlap (appuntamenti s) ap = Inr (Some c)"
  shows "appuntamenti (snd (add_appointment True w s))
           = sort_key (\<lambda>a. dt_key (data_ora a)) (appuntamenti s @ [ap])
       \<and> dialogs (snd (add_appointment True w s))
           = dialogs s @ [Ask_sovrapposizione (titolo c) (strftime_dm_HM (data_ora c))]"
proof -
  from assms(1) have p: "parse_form s = (Inr (Some ap), s\<lparr>next_oid := Suc (next_oid s)\<rparr>)"
    using parse_form_Some_state [OF assms(1)] by (cases "parse_form s") simp
  show ?thesis
    by (simp add: add_appointment_def p assms(2) Let_def append_appointment_appuntamenti
        append_appointment_dialogs)
qed

section \<open>The overlap rule\<close>

text \<open>
  Claim C1. For a candidate and an existing appointment whose ends can be computed,
  \<^verbatim>\<open>_find_overlap\<close> flags the pair exactly when the half-open predicate holds:
  \<open>candidate.start < existing.end\<close> and \<open>candidate.end > existing.start\<close>. Two
  back-to-back appointments, the end of one being the start of the other, are not
  flagged, whichever of the two is the candidate. Over a whole list of appointments
  whose ends can be computed, \<^verbatim>\<open>_find_overlap\<close> returns the first appointment of the
  list that overlaps the candidate by the half-open rule, and \<^verbatim>\<open>None\<close> exactly when no
  appointment of the list does.
\<close>

theorem find_overlap_half_open:
  assumes "fine new_ap = Inr e1" and "fine ap = Inr e2" and "\<forall>a \<in> set aps. has_end a"
  shows "(find_overlap [ap] new_ap = Inr (Some ap) \<longleftrightarrow>
            half_open_overlap (data_ora new_ap) e1 (data_ora ap) e2)
       \<and> (find_overlap [ap] new_ap = Inr None \<longleftrightarrow>
            \<not> half_open_overlap (data_ora new_ap) e1 (data_ora ap) e2)
       \<and> (e1 = data_ora ap \<longrightarrow> find_overlap [ap] new_ap = Inr None)
       \<and> (e2 = data_ora new_ap \<longrightarrow> find_overlap [ap] new_ap = Inr None)
       \<and> (spec_overlaps new_ap ap \<longleftrightarrow> half_open_overlap (data_ora new_ap) e1 (data_ora ap) e2)
       \<and> find_overlap aps new_ap = Inr (List.find (spec_overlaps new_ap) aps)
       \<and> (find_overlap aps new_ap = Inr None \<longleftrightarrow> (\<forall>a \<in> set aps. \<not> spec_overlaps new_ap a))
       \<and> (\<forall>c. find_overlap aps new_ap = Inr (Some c) \<longrightarrow> c \<in> set aps \<and> spec_overlaps new_ap c)"
proof -
  have 1: "(find_overlap [ap] new_ap = Inr (Some ap) \<longleftrightarrow>
            half_open_overlap (data_ora new_ap) e1 (data_ora ap) e2)
       \<and> (find_overlap [ap] new_ap = Inr None \<longleftrightarrow>
            \<not> half_open_overlap (data_ora new_ap) e1 (data_ora ap) e2)
       \<and> (e1 = data_ora ap \<longrightarrow> find_overlap [ap] new_ap = Inr None)
       \<and> (e2 = data_ora new_ap \<longrightarrow> find_overlap [ap] new_ap = Inr None)"
    using assms(1,2) by (simp add: half_open_overlap_def dt_less_irrefl)
  have 2: "spec_overlaps new_ap ap \<longleftrightarrow> half_open_overlap (data_ora new_ap) e1 (data_ora ap) e2"
    using assms(1,2) by (simp add: spec_overlaps_def)
  have "has_end new_ap"
    using assms(1) by (simp add: has_end_def)
  then have 3: "find_overlap aps new_ap = Inr (List.find (spec_overlaps new_ap) aps)"
    using assms(3) by (rule find_overlap_find)
  have 4: "find_overlap aps new_ap = Inr None \<longleftrightarrow> (\<forall>a \<in> set aps. \<not> spec_overlaps new_ap a)"
    unfolding 3 by (auto simp: find_None_iff)
  have 5: "\<forall>c. find_overlap aps new_ap = Inr (Some c) \<longrightarrow> c \<in> set aps \<and> spec_overlaps new_ap c"
    unfolding 3 using find_Some_mem [of "spec_overlaps new_ap" aps] by blast
  from 1 2 3 4 5 show ?thesis by blast
qed

text \<open>
  The three pairs of the specification: 09:00 to 10:00 against 09:30 to 10:30 (flagged),
  against 10:00 to 11:00 and against 08:00 to 09:00 (back-to-back, not flagged). Then a
  list of two: 09:30 to 10:30 against 08:00 to 09:00 followed by 09:00 to 10:00 is
  flagged with the second appointment, and 09:00 to 10:00 against 08:00 to 09:00
  followed by 10:00 to 11:00 is not flagged.
\<close>

theorem find_overlap_half_open_witness:
  "find_overlap [ex_ap 0 ''A'' 9 0 60] (ex_ap 1 ''B'' 9 30 60) = Inr (Some (ex_ap 0 ''A'' 9 0 60))
   \<and> find_overlap [ex_ap 0 ''A'' 9 0 60] (ex_ap 2 ''C'' 10 0 60) = Inr None
   \<and> find_overlap [ex_ap 0 ''A'' 9 0 60] (ex_ap 3 ''D'' 8 0 60) = Inr None
   \<and> find_overlap [ex_ap 3 ''D'' 8 0 60, ex_ap 0 ''A'' 9 0 60] (ex_ap 1 ''B'' 9 30 60)
       = Inr (Some (ex_ap 0 ''A'' 9 0 60))
   \<and> find_overlap [ex_ap 3 ''D'' 8 0 60, ex_ap 2 ''C'' 10 0 60] (ex_ap 0 ''A'' 9 0 60) = Inr None"
proof -
  have b: "find_overlap [ex_ap 0 ''A'' 9 0 60] (ex_ap 1 ''B'' 9 30 60) = Inr (Some (ex_ap 0 ''A'' 9 0 60))"
    using find_overlap_half_open [OF fine_ex_ap_930_60 [of 1 "''B''"] fine_ex_ap_9_60 [of 0 "''A''"], of "[]"]
    by (simp add: half_open_overlap_def dt_less_def dt_key_def ex_ap_def ex_at_def)
  have c: "find_overlap [ex_ap 0 ''A'' 9 0 60] (ex_ap 2 ''C'' 10 0 60) = Inr None"
    using find_overlap_half_open [OF fine_ex_ap_10_60 [of 2 "''C''"] fine_ex_ap_9_60 [of 0 "''A''"], of "[]"]
    by (simp add: ex_ap_def)
  have d: "find_overlap [ex_ap 0 ''A'' 9 0 60] (ex_ap 3 ''D'' 8 0 60) = Inr None"
    using find_overlap_half_open [OF fine_ex_ap_8_60 [of 3 "''D''"] fine_ex_ap_9_60 [of 0 "''A''"], of "[]"]
    by (simp add: ex_ap_def)
  have f: "List.find (spec_overlaps (ex_ap 1 ''B'' 9 30 60)) [ex_ap 3 ''D'' 8 0 60, ex_ap 0 ''A'' 9 0 60]
      = Some (ex_ap 0 ''A'' 9 0 60)"
    by code_simp
  have f': "\<forall>a \<in> set [ex_ap 3 ''D'' 8 0 60, ex_ap 0 ''A'' 9 0 60]. has_end a"
    by (simp add: has_end_ex)
  have "find_overlap [ex_ap 3 ''D'' 8 0 60, ex_ap 0 ''A'' 9 0 60] (ex_ap 1 ''B'' 9 30 60)
       = Inr (List.find (spec_overlaps (ex_ap 1 ''B'' 9 30 60)) [ex_ap 3 ''D'' 8 0 60, ex_ap 0 ''A'' 9 0 60])"
    using find_overlap_half_open [OF fine_ex_ap_930_60 [of 1 "''B''"] fine_ex_ap_9_60 [of 0 "''A''"] f']
    by blast
  then have e: "find_overlap [ex_ap 3 ''D'' 8 0 60, ex_ap 0 ''A'' 9 0 60] (ex_ap 1 ''B'' 9 30 60)
       = Inr (Some (ex_ap 0 ''A'' 9 0 60))"
    by (simp only: f)
  have g: "List.find (spec_overlaps (ex_ap 0 ''A'' 9 0 60)) [ex_ap 3 ''D'' 8 0 60, ex_ap 2 ''C'' 10 0 60]
      = None"
    by code_simp
  have g': "\<forall>a \<in> set [ex_ap 3 ''D'' 8 0 60, ex_ap 2 ''C'' 10 0 60]. has_end a"
    by (simp add: has_end_ex)
  have "find_overlap [ex_ap 3 ''D'' 8 0 60, ex_ap 2 ''C'' 10 0 60] (ex_ap 0 ''A'' 9 0 60)
       = Inr (List.find (spec_overlaps (ex_ap 0 ''A'' 9 0 60)) [ex_ap 3 ''D'' 8 0 60, ex_ap 2 ''C'' 10 0 60])"
    using find_overlap_half_open [OF fine_ex_ap_9_60 [of 0 "''A''"] fine_ex_ap_8_60 [of 3 "''D''"] g']
    by blast
  then have h: "find_overlap [ex_ap 3 ''D'' 8 0 60, ex_ap 2 ''C'' 10 0 60] (ex_ap 0 ''A'' 9 0 60) = Inr None"
    by (simp only: g)
  from b c d e h show ?thesis by blast
qed

section \<open>Saving\<close>

text \<open>
  Claim C8. \<^verbatim>\<open>_save\<close> never changes the list of appointments, whether the write
  succeeds or fails; and the list that \<^verbatim>\<open>_add_appointment\<close> and \<^verbatim>\<open>_delete_selected\<close>
  leave is the same whatever the write at their end does: a failed save does not take
  the change back.
\<close>

theorem save_keeps_appuntamenti:
  "appuntamenti (save w s) = appuntamenti s
   \<and> appuntamenti (on_close w s) = appuntamenti s
   \<and> appuntamenti (snd (add_appointment yes w s)) = appuntamenti (snd (add_appointment yes Write_ok s))
   \<and> appuntamenti (snd (delete_selected sel yes w s)) = appuntamenti (snd (delete_selected sel yes Write_ok s))"
  by (cases w)
     (auto simp: save_def on_close_def add_appointment_def append_appointment_def delete_selected_def
           clear_form_def Let_def split: prod.splits sum.splits option.splits list.splits)

section \<open>Serialisation\<close>

text \<open>
  Claim C2. For an appointment \<open>a\<close> that the constructor built from a title, a start
  and an integer duration, \<^verbatim>\<open>from_dict(a.to_dict())\<close> succeeds and yields a new object
  with the title, the start and the duration of \<open>a\<close>, hence with the same computed end.
  (No condition on the title or the sign of the duration is needed.)
\<close>

theorem from_dict_to_dict:
  assumes "valid_datetime start"
    and "Appuntamento_init i (PStr t) start (PInt n) = Inr a"
  shows "from_dict j (to_dict a) = Inr (a\<lparr>oid := j\<rparr>)
       \<and> titolo (a\<lparr>oid := j\<rparr>) = titolo a
       \<and> data_ora (a\<lparr>oid := j\<rparr>) = data_ora a
       \<and> durata (a\<lparr>oid := j\<rparr>) = durata a
       \<and> fine (a\<lparr>oid := j\<rparr>) = fine a"
proof -
  from assms(2) have a: "a = \<lparr>oid = i, titolo = strip t, data_ora = start, durata = n\<rparr>"
    by (simp add: Appuntamento_init_def py_strip_def py_int_def)
  have "from_dict j (to_dict a) = Inr (a\<lparr>oid := j\<rparr>)"
    by (simp add: a from_dict_def from_dict_lib_def to_dict_def getitem_def py_fromisoformat_def
        fromisoformat_isoformat [OF assms(1)] py_int_def Appuntamento_init_def py_strip_def strip_idem)
  then show ?thesis by (simp add: fine_oid)
qed

theorem from_dict_to_dict_witness:
  "valid_datetime (ex_at 9 0)
   \<and> Appuntamento_init 0 (PStr '' Dentist '') (ex_at 9 0) (PInt 30) = Inr (ex_ap 0 ''Dentist'' 9 0 30)
   \<and> from_dict 1 (to_dict (ex_ap 0 ''Dentist'' 9 0 30)) = Inr (ex_ap 1 ''Dentist'' 9 0 30)"
proof -
  have v: "valid_datetime (ex_at 9 0)"
    by (simp add: valid_datetime_def ex_at_def check_date_fields_def check_time_fields_def
        MINYEAR_def MAXYEAR_def days_in_month_def DAYS_IN_MONTH_def)
  have c: "Appuntamento_init 0 (PStr '' Dentist '') (ex_at 9 0) (PInt 30) = Inr (ex_ap 0 ''Dentist'' 9 0 30)"
    by (simp add: Appuntamento_init_def py_strip_def py_int_def ex_ap_def strip_def lstrip_def
        rstrip_def is_space_def)
  from from_dict_to_dict [OF v c, of 1] v c show ?thesis
    by (simp add: ex_ap_def)
qed

section \<open>Stripped titles\<close>

text \<open>
  Claim C10. Every appointment stores its title stripped: the constructor strips what
  it is given, whether called on the form or by \<^verbatim>\<open>from_dict\<close> on a stored record (whose
  title may carry blanks), so \<open>titolo a = strip (titolo a)\<close> holds of every appointment
  of the list in every state the window can reach.
\<close>

theorem titolo_always_stripped:
  "(Appuntamento_init i t d n = Inr a \<longrightarrow> titolo a = strip (titolo a))
   \<and> (from_dict j r = Inr a' \<longrightarrow> titolo a' = strip (titolo a'))
   \<and> (reachable s \<longrightarrow> (\<forall>x \<in> set (appuntamenti s). titolo x = strip (titolo x)))"
  using Appuntamento_init_stripped [of i t d n a] from_dict_props [of j r a'] reachable_list_inv [of s]
  by (auto simp: list_inv_def)

theorem titolo_always_stripped_witness:
  "from_dict 0 ex_record = Inr (ex_ap 0 ''Dentist'' 9 0 30)
   \<and> reachable ex_loaded
   \<and> appuntamenti ex_loaded = [ex_ap 0 ''Dentist'' 9 0 30]
   \<and> strip ''Dentist'' = ''Dentist''"
proof -
  have f: "from_dict 0 ex_record = Inr (ex_ap 0 ''Dentist'' 9 0 30)"
    by code_simp
  have l: "appuntamenti ex_loaded = [ex_ap 0 ''Dentist'' 9 0 30]"
    by (simp add: ex_loaded_def ex_loaded_eq)
  from titolo_always_stripped [of 0 "PStr []" "ex_at 9 0" "PInt 0" "ex_ap 0 [] 9 0 0" 0 ex_record
      "ex_ap 0 ''Dentist'' 9 0 30" ex_loaded] f reachable_ex_loaded l
  have "strip ''Dentist'' = ''Dentist''"
    by (simp add: ex_ap_def)
  with f reachable_ex_loaded l show ?thesis by simp
qed

section \<open>The sorted list\<close>

text \<open>
  Claim C3. Whenever \<^verbatim>\<open>_add_appointment\<close> or \<^verbatim>\<open>_delete_selected\<close> changes the list, and
  after every forced add, the list is in ascending order of start; so it is in every
  state the window can reach. In particular three appointments with starts
  \<open>a < b < c\<close> appended to the empty list in any order are listed as \<open>a, b, c\<close>.
\<close>

theorem appuntamenti_sorted_after_mutation:
  "(appuntamenti (snd (add_appointment yes w s)) = appuntamenti s
      \<or> sorted_by_start (appuntamenti (snd (add_appointment yes w s))))
   \<and> (appuntamenti (snd (delete_selected sel yes w s)) = appuntamenti s
      \<or> sorted_by_start (appuntamenti (snd (delete_selected sel yes w s))))
   \<and> sorted_by_start (appuntamenti (snd (append_appointment ap w s)))
   \<and> (reachable s \<longrightarrow> sorted_by_start (appuntamenti s))
   \<and> (appuntamenti s = [] \<and> mset xs = {#a, b, c#}
        \<and> dt_less (data_ora a) (data_ora b) \<and> dt_less (data_ora b) (data_ora c)
      \<longrightarrow> appuntamenti (append_all xs s) = [a, b, c])"
proof -
  have 1: "appuntamenti (snd (add_appointment yes w s)) = appuntamenti s
      \<or> sorted_by_start (appuntamenti (snd (add_appointment yes w s)))"
    using add_appointment_cases [of yes w s] by (auto simp: sorted_by_start_def)
  have 2: "appuntamenti (snd (delete_selected sel yes w s)) = appuntamenti s
      \<or> sorted_by_start (appuntamenti (snd (delete_selected sel yes w s)))"
    using delete_selected_cases [of sel yes w s] by (auto simp: sorted_by_start_def)
  have 3: "sorted_by_start (appuntamenti (snd (append_appointment ap w s)))"
    by (simp add: append_appointment_appuntamenti sorted_by_start_def)
  have 4: "reachable s \<longrightarrow> sorted_by_start (appuntamenti s)"
    using reachable_list_inv [of s] by (simp add: list_inv_def)
  have 5: "appuntamenti (append_all xs s) = [a, b, c]"
    if h: "appuntamenti s = []" "mset xs = {#a, b, c#}"
      "dt_less (data_ora a) (data_ora b)" "dt_less (data_ora b) (data_ora c)"
  proof -
    have "sorted (map (\<lambda>a. dt_key (data_ora a)) (appuntamenti (append_all xs s)))"
      using sorted_append_all [of s xs] h(1) by (simp add: sorted_by_start_def)
    moreover have "mset (appuntamenti (append_all xs s)) = {#a, b, c#}"
      using mset_append_all [of xs s] h(1,2) by simp
    ultimately show ?thesis
      using h(3,4) unfolding dt_less_def by (rule sorted_three_unique)
  qed
  from 1 2 3 4 5 show ?thesis by blast
qed

text \<open>
  The appointments entered through the form in the order 10:00, 08:00, 09:00 are listed
  as 08:00, 09:00, 10:00.
\<close>

theorem appuntamenti_sorted_after_mutation_witness:
  "reachable ex_three
   \<and> appuntamenti ex_three = [ex_ap 1 ''B'' 8 0 30, ex_ap 2 ''C'' 9 0 30, ex_ap 0 ''A'' 10 0 30]
   \<and> sorted_by_start (appuntamenti ex_three)
   \<and> appuntamenti (append_all [ex_ap 0 ''A'' 10 0 30, ex_ap 1 ''B'' 8 0 30, ex_ap 2 ''C'' 9 0 30] ex_empty)
       = [ex_ap 1 ''B'' 8 0 30, ex_ap 2 ''C'' 9 0 30, ex_ap 0 ''A'' 10 0 30]"
proof -
  note t = appuntamenti_sorted_after_mutation [of False Write_ok ex_three "[]" "ex_ap 0 ''A'' 10 0 30"
      "[ex_ap 0 ''A'' 10 0 30, ex_ap 1 ''B'' 8 0 30, ex_ap 2 ''C'' 9 0 30]"
      "ex_ap 1 ''B'' 8 0 30" "ex_ap 2 ''C'' 9 0 30" "ex_ap 0 ''A'' 10 0 30"]
  have s: "sorted_by_start (appuntamenti ex_three)"
    using t reachable_ex_three by blast
  note u = appuntamenti_sorted_after_mutation [of False Write_ok ex_empty "[]" "ex_ap 0 ''A'' 10 0 30"
      "[ex_ap 0 ''A'' 10 0 30, ex_ap 1 ''B'' 8 0 30, ex_ap 2 ''C'' 9 0 30]"
      "ex_ap 1 ''B'' 8 0 30" "ex_ap 2 ''C'' 9 0 30" "ex_ap 0 ''A'' 10 0 30"]
  have e: "appuntamenti ex_empty = []"
    by (simp add: ex_empty_def ex_empty_eq)
  have m: "mset [ex_ap 0 ''A'' 10 0 30, ex_ap 1 ''B'' 8 0 30, ex_ap 2 ''C'' 9 0 30]
      = {#ex_ap 1 ''B'' 8 0 30, ex_ap 2 ''C'' 9 0 30, ex_ap 0 ''A'' 10 0 30#}"
    by simp
  have l: "dt_less (data_ora (ex_ap 1 ''B'' 8 0 30)) (data_ora (ex_ap 2 ''C'' 9 0 30))"
      "dt_less (data_ora (ex_ap 2 ''C'' 9 0 30)) (data_ora (ex_ap 0 ''A'' 10 0 30))"
    by (simp_all add: dt_less_def dt_key_def ex_ap_def ex_at_def)
  have "appuntamenti (append_all [ex_ap 0 ''A'' 10 0 30, ex_ap 1 ''B'' 8 0 30, ex_ap 2 ''C'' 9 0 30] ex_empty)
       = [ex_ap 1 ''B'' 8 0 30, ex_ap 2 ''C'' 9 0 30, ex_ap 0 ''A'' 10 0 30]"
    using u e m l by blast
  with s reachable_ex_three ex_three_eq show ?thesis by simp
qed

section \<open>Deleting\<close>

text \<open>
  Claim C7. \<^verbatim>\<open>_delete_selected\<close> with a selected index past the end of the list raises
  \<^verbatim>\<open>IndexError\<close> and changes nothing. With an index inside the list and the deletion
  confirmed, the list is one shorter, and the appointment that stood at the index is no
  longer in it: the objects of the list are distinct (as they are in every reachable
  state), and exactly that one is taken out.
\<close>

theorem delete_selected_index:
  "(length (appuntamenti s) \<le> idx \<longrightarrow> delete_selected (idx # rest) yes w s = (Some IndexError, s))
   \<and> (idx < length (appuntamenti s) \<and> distinct (map oid (appuntamenti s)) \<longrightarrow>
        Suc (length (appuntamenti (snd (delete_selected (idx # rest) True w s)))) = length (appuntamenti s)
        \<and> appuntamenti s ! idx \<notin> set (appuntamenti (snd (delete_selected (idx # rest) True w s)))
        \<and> mset (appuntamenti (snd (delete_selected (idx # rest) True w s)))
             = mset (appuntamenti s) - {#appuntamenti s ! idx#})
   \<and> (reachable s \<longrightarrow> distinct (map oid (appuntamenti s)))"
proof -
  have 1: "delete_selected (idx # rest) yes w s = (Some IndexError, s)"
    if "length (appuntamenti s) \<le> idx"
    using that by (simp add: delete_selected_def)
  have 2: "Suc (length (appuntamenti (snd (delete_selected (idx # rest) True w s)))) = length (appuntamenti s)
        \<and> appuntamenti s ! idx \<notin> set (appuntamenti (snd (delete_selected (idx # rest) True w s)))
        \<and> mset (appuntamenti (snd (delete_selected (idx # rest) True w s)))
             = mset (appuntamenti s) - {#appuntamenti s ! idx#}"
    if h: "idx < length (appuntamenti s)" "distinct (map oid (appuntamenti s))"
  proof -
    from h(2) have d: "distinct (appuntamenti s)" by (simp add: distinct_map)
    note e = delete_selected_confirmed [OF h(1), of rest w]
    have "Suc (length (appuntamenti (snd (delete_selected (idx # rest) True w s)))) = length (appuntamenti s)"
      using h(1) by (simp add: e)
    moreover have "appuntamenti s ! idx \<notin> set (appuntamenti (snd (delete_selected (idx # rest) True w s)))"
      using nth_not_in_delete [OF d h(1)] by (simp add: e)
    moreover have "mset (appuntamenti (snd (delete_selected (idx # rest) True w s)))
             = mset (appuntamenti s) - {#appuntamenti s ! idx#}"
      using mset_delete [OF h(1)] by (simp add: e)
    ultimately show ?thesis by blast
  qed
  have 3: "reachable s \<longrightarrow> distinct (map oid (appuntamenti s))"
    using reachable_list_inv [of s] by (simp add: list_inv_def)
  from 1 2 3 show ?thesis by blast
qed

theorem delete_selected_index_witness:
  "delete_selected [3] True Write_ok ex_three = (Some IndexError, ex_three)
   \<and> Suc (length (appuntamenti (snd (delete_selected [1] True Write_ok ex_three)))) = 3
   \<and> ex_ap 2 ''C'' 9 0 30 \<notin> set (appuntamenti (snd (delete_selected [1] True Write_ok ex_three)))
   \<and> distinct (map oid (appuntamenti ex_three))"
proof -
  have l: "length (appuntamenti ex_three) = 3" "appuntamenti ex_three ! 1 = ex_ap 2 ''C'' 9 0 30"
    by (simp_all add: ex_three_eq)
  have d: "distinct (map oid (appuntamenti ex_three))"
    by (simp add: ex_three_eq ex_ap_def)
  from delete_selected_index [of ex_three 3 "[]" True Write_ok] l(1)
  have a: "delete_selected [3] True Write_ok ex_three = (Some IndexError, ex_three)"
    by simp
  from delete_selected_index [of ex_three 1 "[]" True Write_ok] l d
  have b: "Suc (length (appuntamenti (snd (delete_selected [1] True Write_ok ex_three)))) = 3
      \<and> ex_ap 2 ''C'' 9 0 30 \<notin> set (appuntamenti (snd (delete_selected [1] True Write_ok ex_three)))"
    by simp
  from a b d show ?thesis by simp
qed

section \<open>Loading\<close>

text \<open>
  Claim C6. Without a file \<^verbatim>\<open>_load\<close> does nothing, so the window starts with the empty
  list and no message. With a file that cannot be read or converted, \<^verbatim>\<open>_load\<close> shows the
  warning with the exception and changes nothing else: the list is as it was.
\<close>

theorem load_missing_or_unparseable:
  "(disk s = None \<longrightarrow> load s = s)
   \<and> gestore_init None today = (None, new_gestore None today)
   \<and> appuntamenti (new_gestore None today) = []
   \<and> (disk s = Some f \<and> load_error f (next_oid s) = Some e \<longrightarrow>
        load s = s\<lparr>dialogs := dialogs s @ [Showwarning e]\<rparr> \<and> appuntamenti (load s) = appuntamenti s)"
proof -
  have 1: "disk s = None \<longrightarrow> load s = s"
    by (simp add: load_def)
  have 2: "gestore_init None today = (None, new_gestore None today)"
    by (simp add: gestore_init_def load_def new_gestore_def refresh_list_def)
  have 3: "appuntamenti (new_gestore None today) = []"
    by (simp add: new_gestore_def)
  have 4: "load s = s\<lparr>dialogs := dialogs s @ [Showwarning e]\<rparr> \<and> appuntamenti (load s) = appuntamenti s"
    if "disk s = Some f" "load_error f (next_oid s) = Some e"
    using that by (auto simp: load_def load_error_def split: file_state.splits sum.splits)
  from 1 2 3 4 show ?thesis by blast
qed

theorem load_missing_or_unparseable_witness:
  "load (ex_three\<lparr>disk := None\<rparr>) = ex_three\<lparr>disk := None\<rparr>
   \<and> load (ex_three\<lparr>disk := Some (Unreadable JSONDecodeError)\<rparr>)
       = ex_three\<lparr>disk := Some (Unreadable JSONDecodeError),
                   dialogs := dialogs ex_three @ [Showwarning JSONDecodeError]\<rparr>
   \<and> appuntamenti (load (ex_three\<lparr>disk := Some (Readable (PList [PDict [(''titolo'', PStr ''x'')]]))\<rparr>))
       = appuntamenti ex_three"
proof -
  have a: "load (ex_three\<lparr>disk := None\<rparr>) = ex_three\<lparr>disk := None\<rparr>"
    using load_missing_or_unparseable [of "ex_three\<lparr>disk := None\<rparr>"] by simp
  have b: "load (ex_three\<lparr>disk := Some (Unreadable JSONDecodeError)\<rparr>)
       = ex_three\<lparr>disk := Some (Unreadable JSONDecodeError),
                   dialogs := dialogs ex_three @ [Showwarning JSONDecodeError]\<rparr>"
    using load_missing_or_unparseable [of "ex_three\<lparr>disk := Some (Unreadable JSONDecodeError)\<rparr>"
        ex_date "Unreadable JSONDecodeError" JSONDecodeError]
    by (simp add: load_error_def)
  have "load_error (Readable (PList [PDict [(''titolo'', PStr ''x'')]])) n = Some KeyError" for n
    by (simp add: load_error_def py_iter_def from_dict_def from_dict_lib_def getitem_def)
  then have c: "appuntamenti (load (ex_three\<lparr>disk := Some (Readable (PList [PDict [(''titolo'', PStr ''x'')]]))\<rparr>))
       = appuntamenti ex_three"
    using load_missing_or_unparseable [of "ex_three\<lparr>disk := Some (Readable (PList [PDict [(''titolo'', PStr ''x'')]]))\<rparr>"
        ex_date "Readable (PList [PDict [(''titolo'', PStr ''x'')]])" KeyError]
    by simp
  from a b c show ?thesis by simp
qed

section \<open>Deserialising\<close>

text \<open>
  Claim C9, as amended. Whatever \<^verbatim>\<open>datetime.fromisoformat\<close> and \<^verbatim>\<open>int\<close> do,
  \<^verbatim>\<open>from_dict\<close> raises exactly when the record is not a dict, or one of the three fields
  is missing, or the title is not a string, or \<^verbatim>\<open>datetime.fromisoformat\<close> raises on the
  start, or \<^verbatim>\<open>int\<close> raises on the duration: the first statement holds for every pair of
  library functions, and the method of the program is its instance. With the models of
  the two functions, every record that is well-formed in the specification's sense is
  accepted; but the type of the duration is not checked: \<^verbatim>\<open>int()\<close> converts an integer,
  a bool, a finite float and a string holding a decimal integer, and nothing else.
\<close>

theorem from_dict_fails_iff:
  "((\<exists>e. from_dict_lib fromiso to_int i d = Inl e) \<longleftrightarrow> \<not> record_accepted_lib fromiso to_int d)
   \<and> from_dict i d = from_dict_lib py_fromisoformat py_int i d
   \<and> (spec_record_ok d \<longrightarrow> record_accepted_lib py_fromisoformat py_int d)
   \<and> (int_convertible du \<longleftrightarrow> (\<exists>n. py_int du = Inr n))"
  using from_dict_lib_Inl_iff [of fromiso to_int i d]
    spec_record_ok_accepted_lib [of d] py_int_convertible [of du]
  by (simp add: from_dict_def)

theorem from_dict_fails_iff_witness:
  "spec_record_ok ex_record
   \<and> record_accepted_lib py_fromisoformat py_int ex_record
   \<and> from_dict 0 ex_record = Inr (ex_ap 0 ''Dentist'' 9 0 30)
   \<and> \<not> record_accepted_lib py_fromisoformat py_int (PDict [(''titolo'', PStr ''x'')])
   \<and> from_dict 0 (PDict [(''titolo'', PStr ''x'')]) = Inl KeyError
   \<and> \<not> int_convertible (PStr [CHR 0x1C, CHR ''3'', CHR ''0''])"
proof -
  note t = from_dict_fails_iff [of py_fromisoformat py_int 0 ex_record PNone]
  note u = from_dict_fails_iff [of py_fromisoformat py_int 0 "PDict [(''titolo'', PStr ''x'')]"
      "PStr [CHR 0x1C, CHR ''3'', CHR ''0'']"]
  have a: "spec_record_ok ex_record"
    by code_simp
  with t have b: "record_accepted_lib py_fromisoformat py_int ex_record"
    by blast
  have c: "from_dict 0 ex_record = Inr (ex_ap 0 ''Dentist'' 9 0 30)"
    by code_simp
  have e: "from_dict 0 (PDict [(''titolo'', PStr ''x'')]) = Inl KeyError"
    by (simp add: from_dict_def from_dict_lib_def getitem_def)
  then have "\<exists>e. from_dict_lib py_fromisoformat py_int 0 (PDict [(''titolo'', PStr ''x'')]) = Inl e"
    by (simp add: from_dict_def)
  with u have d: "\<not> record_accepted_lib py_fromisoformat py_int (PDict [(''titolo'', PStr ''x'')])"
    by blast
  have "py_int (PStr [CHR 0x1C, CHR ''3'', CHR ''0'']) = Inl ValueError"
    by code_simp
  with u have f: "\<not> int_convertible (PStr [CHR 0x1C, CHR ''3'', CHR ''0''])"
    by simp
  from a b c d e f show ?thesis by simp
qed

text \<open>
  The claim as stated fails: a record whose duration is the string \<^verbatim>\<open>"30"\<close>, or the
  float 30.5, has a field of the wrong type, and \<^verbatim>\<open>from_dict\<close> returns an appointment of
  30 minutes for it.
\<close>

theorem from_dict_wrong_type_counterexample:
  "\<not> spec_record_ok ex_record_str
   \<and> from_dict 0 ex_record_str = Inr (ex_ap 0 ''Dentist'' 9 0 30)
   \<and> \<not> spec_record_ok ex_record_float
   \<and> from_dict 0 ex_record_float = Inr (ex_ap 0 ''Dentist'' 9 0 30)"
  by code_simp

section \<open>Validating the form\<close>

text \<open>
  Claim C5. With a start given, that is a time chosen in the combobox and the date of
  the calendar widget, \<^verbatim>\<open>_parse_form\<close> fails, showing an error box and returning no
  appointment, exactly when the stripped title is empty or the duration is not a
  positive integer (not an integer at all, or not above zero); otherwise it returns an
  appointment with the stripped title, that duration and a valid start.
\<close>

theorem parse_form_validation:
  assumes "cmb_time s \<in> set cmb_time_values" and "valid_date (cal_date s)"
  shows "(fst (parse_form s) = Inr None \<longleftrightarrow>
            strip (ent_title s) = [] \<or> \<not> duration_ok (ent_duration s))
       \<and> (fst (parse_form s) = Inr None \<longrightarrow>
            (\<exists>msg. snd (parse_form s) = s\<lparr>dialogs := dialogs s @ [Showerror msg]\<rparr>))
       \<and> (fst (parse_form s) \<noteq> Inr None \<longrightarrow>
            (\<exists>ap. parse_form s = (Inr (Some ap), s\<lparr>next_oid := Suc (next_oid s)\<rparr>)
                 \<and> titolo ap = strip (ent_title s)
                 \<and> int_of_str (strip (ent_duration s)) = Inr (durata ap) \<and> 0 < durata ap
                 \<and> valid_datetime (data_ora ap)))"
proof -
  note 1 = parse_form_fails_iff [OF assms]
  have 2: "fst (parse_form s) = Inr None \<longrightarrow>
            (\<exists>msg. snd (parse_form s) = s\<lparr>dialogs := dialogs s @ [Showerror msg]\<rparr>)"
    using parse_form_error_box [of s] by blast
  have 3: "fst (parse_form s) \<noteq> Inr None \<longrightarrow>
            (\<exists>ap. parse_form s = (Inr (Some ap), s\<lparr>next_oid := Suc (next_oid s)\<rparr>)
                 \<and> titolo ap = strip (ent_title s)
                 \<and> int_of_str (strip (ent_duration s)) = Inr (durata ap) \<and> 0 < durata ap
                 \<and> valid_datetime (data_ora ap))"
  proof
    assume "fst (parse_form s) \<noteq> Inr None"
    with 1 have "strip (ent_title s) \<noteq> []" "duration_ok (ent_duration s)" by blast+
    from parse_form_ok [OF assms this] show "\<exists>ap. parse_form s = (Inr (Some ap), s\<lparr>next_oid := Suc (next_oid s)\<rparr>)
                 \<and> titolo ap = strip (ent_title s)
                 \<and> int_of_str (strip (ent_duration s)) = Inr (durata ap) \<and> 0 < durata ap
                 \<and> valid_datetime (data_ora ap)" .
  qed
  from 1 2 3 show ?thesis by blast
qed

text \<open>
  The cases of the specification: a title with blanks around it is accepted and
  stripped; a blank title and the durations 0, -5 and 1.5 are refused.
\<close>

theorem parse_form_validation_witness:
  "''09:00'' \<in> set cmb_time_values \<and> valid_date ex_date
   \<and> fst (parse_form (ex_fill '' Dentist '' ''09:00'' ''30'' ex_empty)) = Inr (Some (ex_ap 0 ''Dentist'' 9 0 30))
   \<and> fst (parse_form (ex_fill ''   '' ''09:00'' ''30'' ex_empty)) = Inr None
   \<and> fst (parse_form (ex_fill ''Dentist'' ''09:00'' ''0'' ex_empty)) = Inr None
   \<and> fst (parse_form (ex_fill ''Dentist'' ''09:00'' ''-5'' ex_empty)) = Inr None
   \<and> fst (parse_form (ex_fill ''Dentist'' ''09:00'' ''1.5'' ex_empty)) = Inr None"
proof -
  have a: "fst (parse_form (ex_fill '' Dentist '' ''09:00'' ''30'' ex_empty)) = Inr (Some (ex_ap 0 ''Dentist'' 9 0 30))"
    by code_simp
  have t: "strip ''   '' = []" "\<not> duration_ok ''0''" "\<not> duration_ok ''-5''" "\<not> duration_ok ''1.5''"
    by code_simp+
  have b: "fst (parse_form (ex_fill ''   '' ''09:00'' ''30'' ex_empty)) = Inr None"
    using parse_form_validation [of "ex_fill ''   '' ''09:00'' ''30'' ex_empty"] ex_slot valid_ex_date t(1)
    by (simp add: ex_fill_fields)
  have c: "fst (parse_form (ex_fill ''Dentist'' ''09:00'' ''0'' ex_empty)) = Inr None"
    using parse_form_validation [of "ex_fill ''Dentist'' ''09:00'' ''0'' ex_empty"] ex_slot valid_ex_date t(2)
    by (simp add: ex_fill_fields)
  have d: "fst (parse_form (ex_fill ''Dentist'' ''09:00'' ''-5'' ex_empty)) = Inr None"
    using parse_form_validation [of "ex_fill ''Dentist'' ''09:00'' ''-5'' ex_empty"] ex_slot valid_ex_date t(3)
    by (simp add: ex_fill_fields)
  have e: "fst (parse_form (ex_fill ''Dentist'' ''09:00'' ''1.5'' ex_empty)) = Inr None"
    using parse_form_validation [of "ex_fill ''Dentist'' ''09:00'' ''1.5'' ex_empty"] ex_slot valid_ex_date t(4)
    by (simp add: ex_fill_fields)
  from a b c d e ex_slot valid_ex_date show ?thesis by simp
qed

section \<open>Adding over a conflict\<close>

text \<open>
  Claim C4. The form holds a candidate that \<^verbatim>\<open>_parse_form\<close> accepts, the ends of the
  appointments of the list can be computed, and the candidate overlaps at least one of
  them. Then \<^verbatim>\<open>_add_appointment\<close> asks its question about the first appointment of the
  list, in the order of the list, that overlaps the candidate: the question names the
  title and the start of that appointment, and no appointment before it overlaps. When
  the answer is no, the callback returns with the list as it was, the same elements in
  the same order; only the question asked, the status bar and the counter of object
  identities differ, and the form still holds the candidate. When the answer is yes,
  at once or on pressing the button again after a refusal, the list afterwards is the
  old list and the candidate, one appointment longer.
\<close>

theorem add_appointment_conflict:
  assumes "fst (parse_form s) = Inr (Some ap)"
    and "\<forall>a \<in> set (appuntamenti s). has_end a"
    and "\<exists>x \<in> set (appuntamenti s). spec_overlaps ap x"
  shows "\<exists>c pre post s'.
       appuntamenti s = pre @ c # post \<and> spec_overlaps ap c \<and> (\<forall>x \<in> set pre. \<not> spec_overlaps ap x)
     \<and> add_appointment False w s = (None, s')
     \<and> s' = s\<lparr>next_oid := Suc (next_oid s),
              dialogs := dialogs s @ [Ask_sovrapposizione (titolo c) (strftime_dm_HM (data_ora c))],
              status := Aggiunta_annullata\<rparr>
     \<and> appuntamenti s' = appuntamenti s
     \<and> dialogs (snd (add_appointment True w s))
         = dialogs s @ [Ask_sovrapposizione (titolo c) (strftime_dm_HM (data_ora c))]
     \<and> mset (appuntamenti (snd (add_appointment True w s))) = mset (appuntamenti s) + {#ap#}
     \<and> length (appuntamenti (snd (add_appointment True w s))) = Suc (length (appuntamenti s))
     \<and> fst (parse_form s') = Inr (Some (ap\<lparr>oid := next_oid s'\<rparr>))
     \<and> dialogs (snd (add_appointment True w' s'))
         = dialogs s' @ [Ask_sovrapposizione (titolo c) (strftime_dm_HM (data_ora c))]
     \<and> mset (appuntamenti (snd (add_appointment True w' s')))
         = mset (appuntamenti s) + {#ap\<lparr>oid := next_oid s'\<rparr>#}
     \<and> length (appuntamenti (snd (add_appointment True w' s'))) = Suc (length (appuntamenti s))"
proof -
  from assms(3) have he: "has_end ap"
    by (auto simp: spec_overlaps_def has_end_def split: sum.splits)
  have fo: "find_overlap (appuntamenti s) ap = Inr (List.find (spec_overlaps ap) (appuntamenti s))"
    using he assms(2) by (rule find_overlap_find)
  from assms(3) obtain c where c: "List.find (spec_overlaps ap) (appuntamenti s) = Some c"
    by (cases "List.find (spec_overlaps ap) (appuntamenti s)") (auto simp: find_None_iff)
  from find_Some_split [OF c] obtain pre post where
    d: "appuntamenti s = pre @ c # post" "spec_overlaps ap c" "\<forall>x \<in> set pre. \<not> spec_overlaps ap x"
    by blast
  have f: "find_overlap (appuntamenti s) ap = Inr (Some c)"
    by (simp add: fo c)
  define s' where "s' = s\<lparr>next_oid := Suc (next_oid s),
      dialogs := dialogs s @ [Ask_sovrapposizione (titolo c) (strftime_dm_HM (data_ora c))],
      status := Aggiunta_annullata\<rparr>"
  have no: "add_appointment False w s = (None, s')"
    unfolding s'_def using assms(1) f by (rule add_appointment_declined)
  have same: "appuntamenti s' = appuntamenti s"
    by (simp add: s'_def)
  note y1 = add_appointment_forced [OF assms(1) f, of w]
  have m1: "mset (appuntamenti (snd (add_appointment True w s))) = mset (appuntamenti s) + {#ap#}"
    by (simp add: y1)
  have l1: "length (appuntamenti (snd (add_appointment True w s))) = Suc (length (appuntamenti s))"
    by (simp add: y1)
  have p': "fst (parse_form s') = Inr (Some (ap\<lparr>oid := next_oid s'\<rparr>))"
    using _ _ _ _ assms(1) by (rule parse_form_same_form) (simp_all add: s'_def)
  have f': "find_overlap (appuntamenti s') (ap\<lparr>oid := next_oid s'\<rparr>) = Inr (Some c)"
    by (simp add: find_overlap_oid same f)
  note y2 = add_appointment_forced [OF p' f', of w']
  have m2: "mset (appuntamenti (snd (add_appointment True w' s')))
      = mset (appuntamenti s) + {#ap\<lparr>oid := next_oid s'\<rparr>#}"
    by (simp add: y2 same)
  have l2: "length (appuntamenti (snd (add_appointment True w' s'))) = Suc (length (appuntamenti s))"
    by (simp add: y2 same)
  from d no same y1 m1 l1 p' y2 m2 l2 s'_def show ?thesis
    by blast
qed

text \<open>
  The list holds 09:00 to 10:00 and the form 09:30 to 10:30: the question names the
  appointment of 09:00, a refusal leaves the list of one, and pressing the button again
  and accepting gives a list of two.
\<close>

theorem add_appointment_conflict_witness:
  "appuntamenti ex_conflict = [ex_ap 0 ''A'' 9 0 60]
   \<and> fst (parse_form ex_conflict) = Inr (Some (ex_ap 1 ''B'' 9 30 60))
   \<and> has_end (ex_ap 0 ''A'' 9 0 60)
   \<and> spec_overlaps (ex_ap 1 ''B'' 9 30 60) (ex_ap 0 ''A'' 9 0 60)
   \<and> fst (add_appointment False Write_ok ex_conflict) = None
   \<and> appuntamenti (snd (add_appointment False Write_ok ex_conflict)) = [ex_ap 0 ''A'' 9 0 60]
   \<and> dialogs (snd (add_appointment False Write_ok ex_conflict))
       = [Ask_sovrapposizione ''A'' ''15/03 09:00'']
   \<and> length (appuntamenti (snd (add_appointment True Write_ok
         (snd (add_appointment False Write_ok ex_conflict))))) = 2"
proof -
  have a: "appuntamenti ex_conflict = [ex_ap 0 ''A'' 9 0 60]"
    by code_simp
  have dg: "dialogs ex_conflict = []"
    by code_simp
  have p: "fst (parse_form ex_conflict) = Inr (Some (ex_ap 1 ''B'' 9 30 60))"
    by code_simp
  have h: "has_end (ex_ap 0 ''A'' 9 0 60)"
    by (rule has_end_ex)
  have o: "spec_overlaps (ex_ap 1 ''B'' 9 30 60) (ex_ap 0 ''A'' 9 0 60)"
    by code_simp
  have h2: "\<forall>a \<in> set (appuntamenti ex_conflict). has_end a"
    by (simp add: a h)
  have h3: "\<exists>x \<in> set (appuntamenti ex_conflict). spec_overlaps (ex_ap 1 ''B'' 9 30 60) x"
    using o by (simp add: a)
  from add_appointment_conflict [OF p h2 h3, where w = Write_ok and w' = Write_ok]
  obtain c pre post s' where
    r1: "appuntamenti ex_conflict = pre @ c # post"
    and r2: "add_appointment False Write_ok ex_conflict = (None, s')"
    and r3: "s' = ex_conflict\<lparr>next_oid := Suc (next_oid ex_conflict),
              dialogs := dialogs ex_conflict @ [Ask_sovrapposizione (titolo c) (strftime_dm_HM (data_ora c))],
              status := Aggiunta_annullata\<rparr>"
    and r4: "appuntamenti s' = appuntamenti ex_conflict"
    and r5: "length (appuntamenti (snd (add_appointment True Write_ok s')))
               = Suc (length (appuntamenti ex_conflict))"
    by blast
  from r1 a have "pre @ c # post = [ex_ap 0 ''A'' 9 0 60]"
    by simp
  then have c: "c = ex_ap 0 ''A'' 9 0 60"
    by (cases pre) simp_all
  have st: "strftime_dm_HM (data_ora (ex_ap 0 ''A'' 9 0 60)) = ''15/03 09:00''"
    by code_simp
  have ti: "titolo (ex_ap 0 ''A'' 9 0 60) = ''A''"
    by (simp add: ex_ap_def)
  have d: "dialogs s' = [Ask_sovrapposizione ''A'' ''15/03 09:00'']"
    by (simp add: r3 dg c st ti)
  from a p h o r2 r4 r5 d show ?thesis
    by simp
qed

end
